theory Spec2Isabelle
  imports Main "HOL-Library.Word"
begin

section \<open>Common data\<close>

text \<open>
  Go's \<open>string\<close> and \<open>[]byte\<close> are both byte sequences; both are modelled as
  \<open>string\<close> (a list of 8-bit characters). \<open>time.Duration\<close> is an \<open>int64\<close> count of
  nanoseconds: a 64-bit word, compared as a signed value and multiplied with wrap-around.
  A \<open>time.Time\<close> is read as the integer number of nanoseconds on the clock.
\<close>

type_synonym bytes = string
type_synonym Duration = "64 word"

definition Millisecond :: Duration where
  "Millisecond = 1000000"

definition Second :: Duration where
  "Second = 1000 * Millisecond"

text \<open>\<open>responseData\<close> (part\_001, lines 293-300). The header map is kept as the list of
  its bindings, in the order a \<open>range\<close> over it visits them.\<close>

record responseData =
  Headers :: "(string \<times> string) list"
  StatusCode :: int
  Body :: bytes

text \<open>The value pair \<open>(*responseData, error)\<close> a poster returns: \<open>Inl e\<close> is a non-nil
  error (with a nil response), \<open>Inr d\<close> a response with a nil error.\<close>

type_synonym post_result = "string + responseData"

text \<open>Go's integer division truncates towards zero.\<close>

definition go_quot :: "int \<Rightarrow> int \<Rightarrow> int" where
  "go_quot a b = sgn a * sgn b * (\<bar>a\<bar> div \<bar>b\<bar>)"

text \<open>Go's \<open>int\<close> has 64 bits: the result of an arithmetic operation wraps around into
  the range from \<open>- 2 ^ 63\<close> to \<open>2 ^ 63 - 1\<close>.\<close>

definition go_int :: "int \<Rightarrow> int" where
  "go_int x = (x + 9223372036854775808) mod 18446744073709551616 - 9223372036854775808"

section \<open>The retry buffer (relay/retry.go)\<close>

definition retryInitial :: Duration where
  "retryInitial = 500 * Millisecond"

definition retryMultiplier :: Duration where
  "retryMultiplier = 2"

record batchPoints =
  Query_bp :: string
  Auth_bp :: string
  Data :: bytes

record cachedPoints =
  Query :: string
  Auth :: string
  Buf :: bytes
  BufSize :: int
  Time :: int

text \<open>\<open>simplePoster\<close> (part\_001, lines 328-349): the location, and the two settings of
  its HTTP client that \<open>newSimplePoster\<close> fills in.\<close>

record simplePoster =
  location :: string
  client_Timeout :: Duration
  client_InsecureSkipVerify :: bool

definition newSimplePoster :: "string \<Rightarrow> Duration \<Rightarrow> bool \<Rightarrow> simplePoster" where
  "newSimplePoster loc timeout skipTLSVerification =
     \<lparr> location = loc, client_Timeout = timeout,
       client_InsecureSkipVerify = skipTLSVerification \<rparr>"

text \<open>A buffered channel: its capacity and the elements waiting in it, oldest first.\<close>

record 'a chan =
  chan_cap :: nat
  chan_buf :: "'a list"

definition make_chan :: "nat \<Rightarrow> 'a chan" where
  "make_chan n = \<lparr> chan_cap = n, chan_buf = [] \<rparr>"

text \<open>A statement that may block: \<open>Blocks\<close> when it cannot proceed in the given state
  (the goroutine stays parked and nothing changes), \<open>Returns\<close> with its result otherwise.\<close>

datatype 'a blocking = Blocks | Returns 'a

text \<open>The send statement \<open>ch <- x\<close>: it proceeds only while the buffer has room.\<close>

definition chan_send :: "'a chan \<Rightarrow> 'a \<Rightarrow> 'a chan blocking" where
  "chan_send ch x =
     (if length (chan_buf ch) < chan_cap ch
      then Returns (ch\<lparr> chan_buf := chan_buf ch @ [x] \<rparr>)
      else Blocks)"

record retryBuffer =
  initialInterval :: Duration
  multiplier :: Duration
  maxInterval :: Duration
  maxBuffered :: int
  maxBatch :: int
  cachedItems :: "cachedPoints list"
  itemChan :: "batchPoints chan"
  p :: simplePoster

definition newRetryBuffer :: "int \<Rightarrow> int \<Rightarrow> Duration \<Rightarrow> simplePoster \<Rightarrow> retryBuffer" where
  "newRetryBuffer sz batch mx po =
     \<lparr> initialInterval = retryInitial,
       multiplier = retryMultiplier,
       maxInterval = mx,
       maxBuffered = sz,
       maxBatch = batch,
       cachedItems = [],
       itemChan = make_chan 10000,
       p = po \<rparr>"

text \<open>\<open>retryBuffer.post\<close> (retry.go, lines 64-77): a plain channel send, then the
  synthetic response.\<close>

definition retryBuffer_post ::
  "retryBuffer \<Rightarrow> bytes \<Rightarrow> string \<Rightarrow> string \<Rightarrow> (retryBuffer \<times> post_result) blocking" where
  "retryBuffer_post r buf query auth =
     (case chan_send (itemChan r) \<lparr> Query_bp = query, Auth_bp = auth, Data = buf \<rparr> of
        Blocks \<Rightarrow> Blocks
      | Returns ch \<Rightarrow>
          Returns (r\<lparr> itemChan := ch \<rparr>,
                   Inr \<lparr> Headers = [], StatusCode = 204, Body = [] \<rparr>))"

subsection \<open>addToCache\<close>

text \<open>The \<open>range\<close> loop of \<open>addToCache\<close> (retry.go, lines 82-89): the first cached
  batch with the same key takes the bytes; the result carries \<open>addToCachedFlag\<close>.\<close>

fun addToCache_loop :: "batchPoints \<Rightarrow> cachedPoints list \<Rightarrow> cachedPoints list \<times> bool" where
  "addToCache_loop points [] = ([], False)"
| "addToCache_loop points (cached # rest) =
     (if Auth cached = Auth_bp points \<and> Query cached = Query_bp points
      then (cached\<lparr> Buf := Buf cached @ Data points,
                    BufSize := BufSize cached + int (length (Data points)) \<rparr> # rest, True)
      else (cached # fst (addToCache_loop points rest), snd (addToCache_loop points rest)))"

text \<open>\<open>addToCache\<close> (retry.go, lines 80-100); \<open>now\<close> is the reading of \<open>time.Now()\<close>.\<close>

definition addToCache :: "int \<Rightarrow> batchPoints \<Rightarrow> cachedPoints list \<Rightarrow> cachedPoints list" where
  "addToCache now points items =
     (if snd (addToCache_loop points items) = False
      then fst (addToCache_loop points items) @
             [\<lparr> Query = Query_bp points, Auth = Auth_bp points, Buf = [], BufSize = 0,
                Time = now \<rparr>]
      else fst (addToCache_loop points items))"

subsection \<open>postToInfluxDB\<close>

datatype flush_event =
    Post bytes string string
  | Sleep Duration
  | LogSend nat
  | LogLost bytes

text \<open>The test \<open>err == nil && resp.StatusCode/100 != 5\<close>.\<close>

definition post_ok :: "post_result \<Rightarrow> bool" where
  "post_ok res = (case res of Inl e \<Rightarrow> False | Inr resp \<Rightarrow> go_quot (StatusCode resp) 100 \<noteq> 5)"

text \<open>Lines 117-122: the interval after a failed attempt.\<close>

definition next_interval :: "retryBuffer \<Rightarrow> Duration \<Rightarrow> Duration" where
  "next_interval r interval =
     (if interval \<le>s maxInterval r
      then (if maxInterval r <s interval * multiplier r then maxInterval r
            else interval * multiplier r)
      else interval)"

text \<open>The loop of \<open>postToInfluxDB\<close> (retry.go, lines 105-125). The wrapped poster's
  answers to the successive attempts are the list \<open>answers\<close>; the result is the trace of
  what the loop did, or \<open>None\<close> when the loop is still retrying after the last answer
  given.\<close>

fun postToInfluxDB_loop ::
  "retryBuffer \<Rightarrow> Duration \<Rightarrow> post_result list \<Rightarrow> bytes \<Rightarrow> string \<Rightarrow> string \<Rightarrow>
     flush_event list option" where
  "postToInfluxDB_loop r interval [] data query auth = None"
| "postToInfluxDB_loop r interval (res # answers) data query auth =
     (if post_ok res then Some [Post data query auth, LogSend (length data)]
      else if maxInterval r \<le>s interval then Some [Post data query auth, LogLost data]
      else (case postToInfluxDB_loop r (next_interval r interval) answers data query auth of
              None \<Rightarrow> None
            | Some tr \<Rightarrow> Some (Post data query auth # Sleep (next_interval r interval) # tr)))"

definition postToInfluxDB ::
  "retryBuffer \<Rightarrow> post_result list \<Rightarrow> bytes \<Rightarrow> string \<Rightarrow> string \<Rightarrow> flush_event list option" where
  "postToInfluxDB r answers data query auth =
     postToInfluxDB_loop r (initialInterval r) answers data query auth"

subsection \<open>The processing loop\<close>

text \<open>\<open>Time.Sub\<close> saturates at the ends of the \<open>int64\<close> range.\<close>

definition time_Sub :: "int \<Rightarrow> int \<Rightarrow> int" where
  "time_Sub t u = max (- (2 ^ 63)) (min (2 ^ 63 - 1) (t - u))"

text \<open>The condition on line 138.\<close>

definition flush_due :: "retryBuffer \<Rightarrow> int \<Rightarrow> cachedPoints \<Rightarrow> bool" where
  "flush_due r nowTime cached =
     (sint (maxInterval r) < time_Sub nowTime (Time cached) \<or> maxBuffered r < BufSize cached)"

text \<open>
  The scan on lines 136-145 ranges over the slice header it read when the loop began:
  the array \<open>backing\<close> of the original length, read again at every index. The
  statement on line 140 moves the elements after \<open>index\<close> one place down inside that same
  array and shortens \<open>r.cachedItems\<close> (its length is \<open>len\<close>); the slots from the new
  length on keep their old contents. The slice expression \<open>r.cachedItems[index+1:]\<close>
  panics when \<open>index + 1\<close> is beyond the current length. A flush is recorded by the
  arguments of its \<open>postToInfluxDB\<close> call.
\<close>

type_synonym flush_call = "bytes \<times> string \<times> string"

datatype scan =
    Scanning "cachedPoints list" nat "flush_call list"
  | Panicked "cachedPoints list" "flush_call list"

fun scan_step :: "retryBuffer \<Rightarrow> (nat \<Rightarrow> int) \<Rightarrow> nat \<Rightarrow> scan \<Rightarrow> scan" where
  "scan_step r clock index (Panicked items out) = Panicked items out"
| "scan_step r clock index (Scanning backing len out) =
     (if flush_due r (clock index) (backing ! index)
      then (if len < index + 1 then Panicked (take len backing) out
            else Scanning
                   (take index backing @ drop (index + 1) (take len backing) @
                      drop (len - 1) backing)
                   (len - 1)
                   (out @ [(Buf (backing ! index), Query (backing ! index),
                            Auth (backing ! index))]))
      else Scanning backing len out)"

definition scan_cached :: "retryBuffer \<Rightarrow> (nat \<Rightarrow> int) \<Rightarrow> cachedPoints list \<Rightarrow> scan" where
  "scan_cached r clock items =
     fold (scan_step r clock) [0 ..< length items] (Scanning items (length items) [])"

text \<open>
  The state of one retry buffer with its worker: the buffer, the flushes made so far, and
  whether the worker goroutine has panicked. One pass of the \<open>for\<close> loop of \<open>run\<close>
  (lines 128-146) takes the reading of \<open>time.Now()\<close> inside \<open>addToCache\<close> and the
  readings at each index of the scan.
\<close>

record worker =
  rb :: retryBuffer
  flushes :: "flush_call list"
  dead :: bool

definition receive :: "int \<Rightarrow> retryBuffer \<Rightarrow> retryBuffer" where
  "receive now r =
     (case chan_buf (itemChan r) of
        [] \<Rightarrow> r
      | points # waiting \<Rightarrow>
          r\<lparr> itemChan := (itemChan r)\<lparr> chan_buf := waiting \<rparr>,
             cachedItems := addToCache now points (cachedItems r) \<rparr>)"

definition run_pass :: "int \<Rightarrow> (nat \<Rightarrow> int) \<Rightarrow> worker \<Rightarrow> worker" where
  "run_pass now clock w =
     (if dead w then w
      else (case scan_cached (receive now (rb w)) clock (cachedItems (receive now (rb w))) of
              Scanning backing len out \<Rightarrow>
                w\<lparr> rb := (receive now (rb w))\<lparr> cachedItems := take len backing \<rparr>,
                   flushes := flushes w @ out \<rparr>
            | Panicked items out \<Rightarrow>
                w\<lparr> rb := (receive now (rb w))\<lparr> cachedItems := items \<rparr>,
                   flushes := flushes w @ out, dead := True \<rparr>))"

text \<open>What happens to a retry buffer: a producer calls \<open>post\<close> (a call that blocks
  leaves the state as it is), or the worker makes one pass of its loop.\<close>

datatype buffer_event =
    Admit bytes string string
  | Pass int "nat \<Rightarrow> int"

fun buffer_step :: "buffer_event \<Rightarrow> worker \<Rightarrow> worker" where
  "buffer_step (Admit buf query auth) w =
     (case retryBuffer_post (rb w) buf query auth of
        Blocks \<Rightarrow> w
      | Returns res \<Rightarrow> w\<lparr> rb := fst res \<rparr>)"
| "buffer_step (Pass now clock) w = run_pass now clock w"

definition start_worker :: "retryBuffer \<Rightarrow> worker" where
  "start_worker r = \<lparr> rb = r, flushes = [], dead = False \<rparr>"

definition run_events :: "buffer_event list \<Rightarrow> worker \<Rightarrow> worker" where
  "run_events evs w = fold buffer_step evs w"

section \<open>The HTTP relay (part\_001)\<close>

subsection \<open>Library functions\<close>

text \<open>
  The handlers call functions of Go's standard library that the repository does not
  define. They are parameters of the model, one field each: the \<open>%q\<close> verb of
  \<open>fmt\<close>; the decimal digits of a length (\<open>fmt.Sprint\<close>); the canonical form of a
  header name, applied by \<open>Header.Set\<close>; \<open>unicode.ToUpper\<close> on a rune outside
  ASCII, from the UTF-8 bytes of the rune to those of its capital; \<open>url.Values.Encode\<close>;
  \<open>time.ParseDuration\<close>; and \<open>gzip.NewReader\<close>.

  A request body is a stream: \<open>Inr bs\<close> delivers the bytes \<open>bs\<close> and then the end of
  the stream, \<open>Inl e\<close> fails with the error \<open>e\<close> while it is read. \<open>gzip.NewReader\<close>
  reads the gzip header and answers with an error (\<open>Inl\<close>) or with the stream of the
  decompressed bytes.
\<close>

type_synonym stream = "string + bytes"
type_synonym Values = "string \<rightharpoonup> string list"

record stdlib =
  fmt_q :: "string \<Rightarrow> string"
  fmt_Sprint :: "nat \<Rightarrow> string"
  CanonicalHeaderKey :: "string \<Rightarrow> string"
  unicode_ToUpper :: "string \<Rightarrow> string"
  Values_Encode :: "Values \<Rightarrow> string"
  ParseDuration :: "string \<Rightarrow> string + Duration"
  gzip_NewReader :: "stream \<Rightarrow> string + stream"

text \<open>The line-protocol package \<open>models\<close> of the database, over its type of points.\<close>

record 'pt models =
  ParsePointsWithPrecision :: "bytes \<Rightarrow> int \<Rightarrow> string \<Rightarrow> string + 'pt list"
  PrecisionString :: "'pt \<Rightarrow> string \<Rightarrow> string"

subsection \<open>strings\<close>

definition is_ascii :: "char \<Rightarrow> bool" where
  "is_ascii c = ((of_char c :: nat) < 128)"

text \<open>The ASCII branch of \<open>strings.ToUpper\<close> moves each of the bytes \<open>a\<close> to \<open>z\<close> to
  its capital and keeps every other byte.\<close>

definition lower_letters :: string where
  "lower_letters = ''abcdefghijklmnopqrstuvwxyz''"

definition upper_letters :: string where
  "upper_letters = ''ABCDEFGHIJKLMNOPQRSTUVWXYZ''"

definition upper_byte :: "char \<Rightarrow> char" where
  "upper_byte c =
     (case map_of (zip lower_letters upper_letters) c of
        None \<Rightarrow> c
      | Some u \<Rightarrow> u)"

text \<open>
  Outside ASCII \<open>strings.ToUpper\<close> is \<open>strings.Map\<close> over the runes of the string, as
  \<open>utf8.DecodeRuneInString\<close> cuts them: the first byte of a rune fixes its width and
  the range of its second byte, the later bytes are continuation bytes (\<open>0x80\<close> to
  \<open>0xBF\<close>), and a byte that starts no well-formed rune is a rune of width 1.
\<close>

definition in_range :: "nat \<Rightarrow> nat \<Rightarrow> char \<Rightarrow> bool" where
  "in_range lo hi c = (lo \<le> of_char c \<and> (of_char c :: nat) \<le> hi)"

text \<open>The width of a rune of \<open>sz\<close> bytes whose second byte must lie between \<open>lo\<close> and
  \<open>hi\<close>, from the bytes after the first one; width 1 when they do not fit.\<close>

definition rune_seq :: "nat \<Rightarrow> nat \<Rightarrow> nat \<Rightarrow> string \<Rightarrow> nat" where
  "rune_seq sz lo hi rest =
     (if length rest < sz - 1 then 1
      else if \<not> in_range lo hi (hd rest) then 1
      else if list_all (in_range 128 191) (take (sz - 2) (tl rest)) then sz
      else 1)"

text \<open>The tables \<open>first\<close> and \<open>acceptRanges\<close> of \<open>unicode/utf8\<close>: for the first
  byte of a rune of more than one byte, the width of the rune and the range of its
  second byte; \<open>None\<close> for an ASCII byte and for a byte that starts no rune.\<close>

definition rune_class :: "char \<Rightarrow> (nat \<times> nat \<times> nat) option" where
  "rune_class s0 =
     (if in_range 194 223 s0 then Some (2, 128, 191)
      else if in_range 224 224 s0 then Some (3, 160, 191)
      else if in_range 225 236 s0 \<or> in_range 238 239 s0 then Some (3, 128, 191)
      else if in_range 237 237 s0 then Some (3, 128, 159)
      else if in_range 240 240 s0 then Some (4, 144, 191)
      else if in_range 241 243 s0 then Some (4, 128, 191)
      else if in_range 244 244 s0 then Some (4, 128, 143)
      else None)"

text \<open>The width of the rune that starts with the byte \<open>s0\<close> and goes on in \<open>rest\<close>.\<close>

definition rune_width :: "char \<Rightarrow> string \<Rightarrow> nat" where
  "rune_width s0 rest =
     (case rune_class s0 of
        None \<Rightarrow> 1
      | Some (sz, lo, hi) \<Rightarrow> rune_seq sz lo hi rest)"

text \<open>
  \<open>strings.Map(unicode.ToUpper, s)\<close>: every rune is replaced by its capital. An ASCII
  byte is a rune of its own; a byte that starts no well-formed rune is written as the
  replacement character \<open>U+FFFD\<close>; the capital of any other rune is the library's. The
  first argument counts the bytes of the current rune that are still to be skipped.
\<close>

fun Map_ToUpper :: "stdlib \<Rightarrow> nat \<Rightarrow> string \<Rightarrow> string" where
  "Map_ToUpper lib k [] = []"
| "Map_ToUpper lib (Suc k) (c # s) = Map_ToUpper lib k s"
| "Map_ToUpper lib 0 (c # s) =
     (if is_ascii c then upper_byte c # Map_ToUpper lib 0 s
      else if rune_width c s = 1
        then [CHR 0xEF, CHR 0xBF, CHR 0xBD] @ Map_ToUpper lib 0 s
      else unicode_ToUpper lib (c # take (rune_width c s - 1) s) @
             Map_ToUpper lib (rune_width c s - 1) s)"

text \<open>\<open>strings.ToUpper\<close>: byte-wise on a string that is all ASCII, rune-wise otherwise.\<close>

definition strings_ToUpper :: "stdlib \<Rightarrow> string \<Rightarrow> string" where
  "strings_ToUpper lib s =
     (if list_all is_ascii s then map upper_byte s else Map_ToUpper lib 0 s)"

text \<open>\<open>strings.Trim\<close> with an ASCII cutset: the right end first, then the left.\<close>

definition trimRight :: "string \<Rightarrow> string \<Rightarrow> string" where
  "trimRight s cutset = rev (dropWhile (\<lambda>c. c \<in> set cutset) (rev s))"

definition trimLeft :: "string \<Rightarrow> string \<Rightarrow> string" where
  "trimLeft s cutset = dropWhile (\<lambda>c. c \<in> set cutset) s"

definition strings_Trim :: "string \<Rightarrow> string \<Rightarrow> string" where
  "strings_Trim s cutset = trimLeft (trimRight s cutset) cutset"

text \<open>\<open>strings.Split\<close> with a separator of one byte: one more piece than there are
  separators.\<close>

fun strings_Split :: "string \<Rightarrow> char \<Rightarrow> string list" where
  "strings_Split [] sep = [[]]"
| "strings_Split (c # s) sep =
     (if c = sep then [] # strings_Split s sep
      else (case strings_Split s sep of
              [] \<Rightarrow> [[c]]
            | t # ts \<Rightarrow> (c # t) # ts))"

subsection \<open>Requests and responses\<close>

record Request =
  Method :: string
  URL_Path :: string
  URL_Query :: Values
  Header_Get :: "string \<Rightarrow> string"
  ReqBody :: stream

definition Values_Get :: "Values \<Rightarrow> string \<Rightarrow> string" where
  "Values_Get vs k = (case vs k of None \<Rightarrow> [] | Some [] \<Rightarrow> [] | Some (v # others) \<Rightarrow> v)"

definition Values_Set :: "Values \<Rightarrow> string \<Rightarrow> string \<Rightarrow> Values" where
  "Values_Set vs k v = vs(k \<mapsto> [v])"

text \<open>
  An \<open>http.ResponseWriter\<close>: the header map, the status code once it has been written,
  and the body bytes written. \<open>WriteHeader\<close> after the status has been written changes
  nothing; \<open>Write\<close> before it writes the status 200 first.
\<close>

record ResponseWriter =
  header :: "string \<rightharpoonup> string"
  status :: "int option"
  written :: bytes

definition new_writer :: ResponseWriter where
  "new_writer = \<lparr> header = Map.empty, status = None, written = [] \<rparr>"

definition Header_Set :: "stdlib \<Rightarrow> string \<Rightarrow> string \<Rightarrow> ResponseWriter \<Rightarrow> ResponseWriter" where
  "Header_Set lib k v w = w\<lparr> header := (header w)(CanonicalHeaderKey lib k \<mapsto> v) \<rparr>"

definition WriteHeader :: "int \<Rightarrow> ResponseWriter \<Rightarrow> ResponseWriter" where
  "WriteHeader code w = (if status w = None then w\<lparr> status := Some code \<rparr> else w)"

definition Write :: "bytes \<Rightarrow> ResponseWriter \<Rightarrow> ResponseWriter" where
  "Write data w = (WriteHeader 200 w)\<lparr> written := written w @ data \<rparr>"

text \<open>\<open>jsonError\<close> (lines 316-322).\<close>

definition jsonError :: "stdlib \<Rightarrow> ResponseWriter \<Rightarrow> int \<Rightarrow> string \<Rightarrow> ResponseWriter" where
  "jsonError lib w code message =
     Write (''{'' @ [CHR 0x22] @ ''error'' @ [CHR 0x22] @ '':'' @ fmt_q lib message @ ''}'' @
              [CHR 0x0A])
       (WriteHeader code
          (Header_Set lib ''Content-Length''
             (fmt_Sprint lib
                (length (''{'' @ [CHR 0x22] @ ''error'' @ [CHR 0x22] @ '':'' @
                           fmt_q lib message @ ''}'' @ [CHR 0x0A])))
             (Header_Set lib ''Content-Type'' ''application/json'' w)))"

subsection \<open>Backends\<close>

datatype poster = Simple simplePoster | Buffered retryBuffer

record httpBackend =
  poster :: poster
  name :: string

record HTTP =
  addr :: string
  relay_name :: string
  schema :: string
  cert :: string
  rp :: string
  closing :: int
  backends :: "httpBackend list"
  queries :: "httpBackend list"

definition DefaultHTTPTimeout :: Duration where
  "DefaultHTTPTimeout = 10 * Second"

definition DefaultMaxDelayInterval :: Duration where
  "DefaultMaxDelayInterval = 10 * Second"

definition DefaultBatchSizeKB :: int where
  "DefaultBatchSizeKB = 512"

definition KB :: int where
  "KB = 1024"

definition MB :: int where
  "MB = 1024 * KB"

text \<open>Modelled from the spec: the configuration records \<open>HTTPConfig\<close>,
  \<open>HTTPOutputConfig\<close> and \<open>HTTPQueryConfig\<close>, whose declarations are not among the
  sources; the fields are the ones the constructors read and the specification lists
  (a query entry has a name, a location and a timeout only).\<close>

record HTTPOutputConfig =
  Name :: string
  Location :: string
  Timeout :: string
  SkipTLSVerification :: bool
  BufferSizeMB :: int
  MaxBatchKB :: int
  MaxDelayInterval :: string

record HTTPQueryConfig =
  Name_q :: string
  Location_q :: string
  Timeout_q :: string

record HTTPConfig =
  Addr :: string
  Name_c :: string
  SSLCombinedPem :: string
  DefaultRetentionPolicy :: string
  Outputs :: "HTTPOutputConfig list"
  Queries :: "HTTPQueryConfig list"

text \<open>The timeout both constructors compute (lines 412-419 and 435-442).\<close>

definition parse_timeout :: "stdlib \<Rightarrow> string \<Rightarrow> string + Duration" where
  "parse_timeout lib t =
     (if t \<noteq> [] then
        (case ParseDuration lib t of
           Inl err \<Rightarrow> Inl (''error parsing HTTP timeout '' @ [CHR 0x27] @ err @ [CHR 0x27])
         | Inr d \<Rightarrow> Inr d)
      else Inr DefaultHTTPTimeout)"

text \<open>\<open>newHttpQueryBackend\<close> (lines 407-428).\<close>

definition newHttpQueryBackend :: "stdlib \<Rightarrow> HTTPQueryConfig \<Rightarrow> string + httpBackend" where
  "newHttpQueryBackend lib cfg =
     (case parse_timeout lib (Timeout_q cfg) of
        Inl err \<Rightarrow> Inl err
      | Inr timeout \<Rightarrow>
          Inr \<lparr> poster = Simple (newSimplePoster (Location_q cfg) timeout True),
                name = (if Name_q cfg = [] then Location_q cfg else Name_q cfg) \<rparr>)"

text \<open>\<open>newHTTPBackend\<close> (lines 430-470). The two sizes are products of Go \<open>int\<close>s
  and wrap around.\<close>

definition newHTTPBackend :: "stdlib \<Rightarrow> HTTPOutputConfig \<Rightarrow> string + httpBackend" where
  "newHTTPBackend lib cfg =
     (case parse_timeout lib (Timeout cfg) of
        Inl err \<Rightarrow> Inl err
      | Inr timeout \<Rightarrow>
          (if 0 < BufferSizeMB cfg then
             (case (if MaxDelayInterval cfg \<noteq> []
                    then (case ParseDuration lib (MaxDelayInterval cfg) of
                            Inl err \<Rightarrow> Inl (''error parsing max retry time '' @ err)
                          | Inr m \<Rightarrow> Inr m)
                    else Inr DefaultMaxDelayInterval) of
                Inl err \<Rightarrow> Inl err
              | Inr mx \<Rightarrow>
                  Inr \<lparr> poster =
                          Buffered
                            (newRetryBuffer (go_int (BufferSizeMB cfg * MB))
                               (if 0 < MaxBatchKB cfg then go_int (MaxBatchKB cfg * KB)
                                else DefaultBatchSizeKB * KB)
                               mx
                               (newSimplePoster (Location cfg) timeout
                                  (SkipTLSVerification cfg))),
                        name = (if Name cfg = [] then Location cfg else Name cfg) \<rparr>)
           else
             Inr \<lparr> poster =
                     Simple (newSimplePoster (Location cfg) timeout (SkipTLSVerification cfg)),
                   name = (if Name cfg = [] then Location cfg else Name cfg) \<rparr>))"

text \<open>The two loops of \<open>NewHTTP\<close> (lines 63-78): the first error ends the construction.\<close>

fun build_all :: "('c \<Rightarrow> string + httpBackend) \<Rightarrow> 'c list \<Rightarrow> string + httpBackend list" where
  "build_all mk [] = Inr []"
| "build_all mk (cfg # cfgs) =
     (case mk cfg of
        Inl err \<Rightarrow> Inl err
      | Inr backend \<Rightarrow>
          (case build_all mk cfgs of
             Inl err \<Rightarrow> Inl err
           | Inr built \<Rightarrow> Inr (backend # built)))"

definition NewHTTP :: "stdlib \<Rightarrow> HTTPConfig \<Rightarrow> string + HTTP" where
  "NewHTTP lib cfg =
     (case build_all (newHTTPBackend lib) (Outputs cfg) of
        Inl err \<Rightarrow> Inl err
      | Inr bs \<Rightarrow>
          (case build_all (newHttpQueryBackend lib) (Queries cfg) of
             Inl err \<Rightarrow> Inl err
           | Inr qs \<Rightarrow>
               Inr \<lparr> addr = Addr cfg,
                     relay_name = Name_c cfg,
                     schema = (if SSLCombinedPem cfg \<noteq> [] then ''https'' else ''http''),
                     cert = SSLCombinedPem cfg,
                     rp = DefaultRetentionPolicy cfg,
                     closing = 0,
                     backends = bs,
                     queries = qs \<rparr>))"

text \<open>The simple poster that finally talks to the backend.\<close>

fun wrapped_poster :: "poster \<Rightarrow> simplePoster" where
  "wrapped_poster (Simple sp) = sp"
| "wrapped_poster (Buffered r) = p r"

subsection \<open>Handlers\<close>

text \<open>
  What a handler did with one request: the state of the response writer, whether the
  handler panicked, and the \<open>post\<close> calls on backends, each with the index of the
  backend in its list, the body, the query string and the authorization value.
  \<open>serveQuery\<close> makes its calls itself, in this order; \<open>serveWrite\<close> starts one
  goroutine for each.

  A \<open>wire\<close> gives the result of the call \<open>b.poster.post(buf, query, auth)\<close> on a
  backend while the request is served.
\<close>

type_synonym post_call = "nat \<times> bytes \<times> string \<times> string"

record handled =
  writer :: ResponseWriter
  panics :: bool
  calls :: "post_call list"

type_synonym wire = "httpBackend \<Rightarrow> bytes \<Rightarrow> string \<Rightarrow> string \<Rightarrow> post_result"

text \<open>\<open>rand.Intn(n)\<close> panics unless \<open>n\<close> is positive; \<open>draw\<close> is the generator's raw
  number.\<close>

definition rand_Intn :: "nat \<Rightarrow> nat \<Rightarrow> nat option" where
  "rand_Intn draw n = (if n = 0 then None else Some (draw mod n))"

text \<open>\<open>servePing\<close> (lines 124-127).\<close>

definition servePing :: "stdlib \<Rightarrow> ResponseWriter \<Rightarrow> handled" where
  "servePing lib w =
     \<lparr> writer = WriteHeader 204 (Header_Set lib ''X-InfluxDB-Version'' ''relay'' w),
       panics = False, calls = [] \<rparr>"

text \<open>\<open>single_node_request\<close> (lines 130-147).\<close>

definition single_node_request ::
  "stdlib \<Rightarrow> wire \<Rightarrow> nat \<Rightarrow> HTTP \<Rightarrow> ResponseWriter \<Rightarrow> Request \<Rightarrow> handled" where
  "single_node_request lib wr draw h w r =
     (case rand_Intn draw (length (queries h)) of
        None \<Rightarrow> \<lparr> writer = w, panics = True, calls = [] \<rparr>
      | Some n \<Rightarrow>
          (case wr (queries h ! n) [] (Values_Encode lib (URL_Query r))
                  (Header_Get r ''Authorization'') of
             Inr resp \<Rightarrow>
               \<lparr> writer =
                   Write (Body resp)
                     (fold (\<lambda>kv. Header_Set lib (fst kv) (snd kv)) (Headers resp) w),
                 panics = False,
                 calls = [(n, [], Values_Encode lib (URL_Query r),
                           Header_Get r ''Authorization'')] \<rparr>
           | Inl err \<Rightarrow>
               \<lparr> writer = jsonError lib w 400 ''request failed'',
                 panics = False,
                 calls = [(n, [], Values_Encode lib (URL_Query r),
                           Header_Get r ''Authorization'')] \<rparr>))"

text \<open>The loop of \<open>all_node_request\<close> (lines 152-162): every pass overwrites the pair
  \<open>resp, err\<close>, which is \<open>None\<close> while both are still nil.\<close>

fun all_node_loop ::
  "wire \<Rightarrow> httpBackend list \<Rightarrow> string \<Rightarrow> string \<Rightarrow> post_result option \<Rightarrow> post_result option" where
  "all_node_loop wr [] query auth resp_err = resp_err"
| "all_node_loop wr (q # qs) query auth resp_err =
     all_node_loop wr qs query auth (Some (wr q [] query auth))"

text \<open>\<open>all_node_request\<close> (lines 149-169). With no backend at all \<open>resp\<close> is still nil
  when its body is read, and the handler panics.\<close>

definition all_node_request ::
  "stdlib \<Rightarrow> wire \<Rightarrow> HTTP \<Rightarrow> ResponseWriter \<Rightarrow> Request \<Rightarrow> handled" where
  "all_node_request lib wr h w r =
     (case all_node_loop wr (queries h) (Values_Encode lib (URL_Query r))
             (Header_Get r ''Authorization'') None of
        None \<Rightarrow> \<lparr> writer = w, panics = True, calls = [] \<rparr>
      | Some (Inr resp) \<Rightarrow>
          \<lparr> writer = Write (Body resp) w,
            panics = False,
            calls = map (\<lambda>i. (i, [], Values_Encode lib (URL_Query r),
                               Header_Get r ''Authorization''))
                      [0 ..< length (queries h)] \<rparr>
      | Some (Inl err) \<Rightarrow>
          \<lparr> writer = WriteHeader 500 w,
            panics = False,
            calls = map (\<lambda>i. (i, [], Values_Encode lib (URL_Query r),
                               Header_Get r ''Authorization''))
                      [0 ..< length (queries h)] \<rparr>)"

text \<open>\<open>error_request\<close> (lines 171-174).\<close>

definition error_request :: "stdlib \<Rightarrow> ResponseWriter \<Rightarrow> string \<Rightarrow> handled" where
  "error_request lib w token =
     \<lparr> writer = jsonError lib w 400 (''relay is not support `'' @ token @ ''` expr!''),
       panics = False, calls = [] \<rparr>"

text \<open>\<open>serveQuery\<close> (lines 129-188).\<close>

definition serveQuery ::
  "stdlib \<Rightarrow> wire \<Rightarrow> nat \<Rightarrow> HTTP \<Rightarrow> ResponseWriter \<Rightarrow> Request \<Rightarrow> handled" where
  "serveQuery lib wr draw h w r =
     (case strings_Split
             (strings_Trim (strings_ToUpper lib (Values_Get (URL_Query r) ''q''))
                [CHR '' '', CHR 0x09, CHR 0x0D, CHR 0x0A])
             (CHR '' '') of
        [] \<Rightarrow> \<lparr> writer = w, panics = True, calls = [] \<rparr>
      | token # others \<Rightarrow>
          (if token = ''SELECT'' \<or> token = ''SHOW'' then single_node_request lib wr draw h w r
           else if token = ''DELETE'' \<or> token = ''DROP'' \<or> token = ''GRANT'' \<or>
                   token = ''REVOKE'' \<or> token = ''ALTER'' \<or> token = ''SET'' \<or>
                   token = ''CREATE''
             then all_node_request lib wr h w r
           else if token = ''KILL'' then error_request lib w token
           else error_request lib w token))"

text \<open>\<open>getBuf\<close> (lines 478-480): a buffer whose contents are the 2048 zero bytes of the
  slice it is made from.\<close>

definition getBuf :: bytes where
  "getBuf = replicate (nat (2 * KB)) (CHR 0x00)"

text \<open>\<open>ReadFrom\<close> appends what the stream delivers to the buffer.\<close>

definition ReadFrom :: "bytes \<Rightarrow> stream \<Rightarrow> string + bytes" where
  "ReadFrom buf body = (case body of Inl err \<Rightarrow> Inl err | Inr bs \<Rightarrow> Inr (buf @ bs))"

text \<open>The loop on lines 241-248; a write to a \<open>bytes.Buffer\<close> returns no error.\<close>

fun write_points :: "'pt models \<Rightarrow> string \<Rightarrow> bytes \<Rightarrow> 'pt list \<Rightarrow> bytes" where
  "write_points m precision outBuf [] = outBuf"
| "write_points m precision outBuf (pt # points) =
     write_points m precision (outBuf @ PrecisionString m pt precision @ [CHR 0x0A]) points"

text \<open>\<open>serveWrite\<close> from line 226 on, with the query parameters and the body stream the
  lines before it chose; \<open>start\<close> is the clock reading of line 191.\<close>

definition serveWrite_body ::
  "stdlib \<Rightarrow> 'pt models \<Rightarrow> HTTP \<Rightarrow> ResponseWriter \<Rightarrow> Request \<Rightarrow> int \<Rightarrow> Values \<Rightarrow> stream \<Rightarrow>
     handled" where
  "serveWrite_body lib m h w r start queryParams body =
     (case ReadFrom getBuf body of
        Inl err \<Rightarrow>
          \<lparr> writer = jsonError lib w 500 ''problem reading request body'',
            panics = False, calls = [] \<rparr>
      | Inr bodyBuf \<Rightarrow>
          (case ParsePointsWithPrecision m bodyBuf start (Values_Get queryParams ''precision'') of
             Inl err \<Rightarrow>
               \<lparr> writer = jsonError lib w 400 ''unable to parse points'',
                 panics = False, calls = [] \<rparr>
           | Inr points \<Rightarrow>
               \<lparr> writer = WriteHeader 204 w,
                 panics = False,
                 calls =
                   map (\<lambda>i. (i,
                              write_points m (Values_Get queryParams ''precision'') getBuf points,
                              Values_Encode lib queryParams,
                              Header_Get r ''Authorization''))
                     [0 ..< length (backends h)] \<rparr>))"

text \<open>
  \<open>serveWrite\<close> (lines 190-278). When \<open>gzip.NewReader\<close> fails the handler writes its
  400 error and goes on (line 221 does not return) with a nil reader; reading from it on
  line 227 dereferences nil, so the handler panics there.
\<close>

definition serveWrite ::
  "stdlib \<Rightarrow> 'pt models \<Rightarrow> HTTP \<Rightarrow> ResponseWriter \<Rightarrow> Request \<Rightarrow> int \<Rightarrow> handled" where
  "serveWrite lib m h w r start =
     (if Method r \<noteq> ''POST'' then
        (if Method r = ''OPTIONS''
         then \<lparr> writer = WriteHeader 204 (Header_Set lib ''Allow'' ''POST'' w),
                panics = False, calls = [] \<rparr>
         else \<lparr> writer = jsonError lib (Header_Set lib ''Allow'' ''POST'' w) 405
                           ''invalid write method'',
                panics = False, calls = [] \<rparr>)
      else if Values_Get (URL_Query r) ''db'' = [] then
        \<lparr> writer = jsonError lib w 400 ''missing parameter: db'', panics = False, calls = [] \<rparr>
      else if Header_Get r ''Content-Encoding'' = ''gzip'' then
        (case gzip_NewReader lib (ReqBody r) of
           Inl err \<Rightarrow>
             \<lparr> writer = jsonError lib w 400 ''unable to decode gzip body'',
               panics = True, calls = [] \<rparr>
         | Inr b \<Rightarrow>
             serveWrite_body lib m h w r start
               (if Values_Get (URL_Query r) ''rp'' = [] \<and> rp h \<noteq> []
                then Values_Set (URL_Query r) ''rp'' (rp h) else URL_Query r)
               b)
      else
        serveWrite_body lib m h w r start
          (if Values_Get (URL_Query r) ''rp'' = [] \<and> rp h \<noteq> []
           then Values_Set (URL_Query r) ''rp'' (rp h) else URL_Query r)
          (ReqBody r))"

text \<open>\<open>ServeHTTP\<close> (lines 280-291).\<close>

definition ServeHTTP ::
  "stdlib \<Rightarrow> 'pt models \<Rightarrow> wire \<Rightarrow> nat \<Rightarrow> int \<Rightarrow> HTTP \<Rightarrow> ResponseWriter \<Rightarrow> Request \<Rightarrow> handled" where
  "ServeHTTP lib m wr draw start h w r =
     (if URL_Path r = ''/ping'' then servePing lib w
      else if URL_Path r = ''/query'' then serveQuery lib wr draw h w r
      else if URL_Path r = ''/write'' then serveWrite lib m h w r start
      else \<lparr> writer = jsonError lib w 404 ''invalid write endpoint'',
             panics = False, calls = [] \<rparr>)"

section \<open>What the specification says, in the model's terms\<close>

text \<open>The key of a cached batch, and the two invariants of the cached batches.\<close>

definition key :: "cachedPoints \<Rightarrow> string \<times> string" where
  "key c = (Query c, Auth c)"

definition size_ok :: "cachedPoints \<Rightarrow> bool" where
  "size_ok c = (BufSize c = int (length (Buf c)))"

definition cache_ok :: "cachedPoints list \<Rightarrow> bool" where
  "cache_ok items = (list_all size_ok items \<and> distinct (map key items))"

text \<open>The invariant while a scan is under way: the visible part of the array is
  \<open>r.cachedItems\<close>.\<close>

fun scan_ok :: "scan \<Rightarrow> bool" where
  "scan_ok (Scanning backing len out) =
     (len \<le> length backing \<and> list_all size_ok backing \<and> distinct (map key (take len backing)))"
| "scan_ok (Panicked items out) = cache_ok items"

text \<open>\<open>r.cachedItems\<close> in a state of the scan.\<close>

fun scan_items :: "scan \<Rightarrow> cachedPoints list" where
  "scan_items (Scanning backing len out) = take len backing"
| "scan_items (Panicked items out) = items"

text \<open>The query classification in the specification's words: the first
  space-separated token of the upper-cased, whitespace-trimmed \<open>q\<close> parameter, and the
  routing table over it.\<close>

definition whitespace :: string where
  "whitespace = [CHR '' '', CHR 0x09, CHR 0x0D, CHR 0x0A]"

definition first_token :: "stdlib \<Rightarrow> string \<Rightarrow> string" where
  "first_token lib q =
     takeWhile (\<lambda>c. c \<noteq> CHR '' '') (strings_Trim (strings_ToUpper lib q) whitespace)"

datatype routing = SingleNode | AllNode | Rejected

definition routing_of :: "string \<Rightarrow> routing" where
  "routing_of token =
     (if token \<in> {''SELECT'', ''SHOW''} then SingleNode
      else if token \<in> {''DELETE'', ''DROP'', ''GRANT'', ''REVOKE'', ''ALTER'', ''SET'', ''CREATE''}
        then AllNode
      else Rejected)"

section \<open>Examples\<close>

text \<open>
  Concrete inputs for the closed statements below. \<open>example_lib\<close> stands for the
  library on the arguments the examples pass (all of them ASCII, so that no rune is handed
  to \<open>unicode.ToUpper\<close>): \<open>%q\<close> on a text with nothing to escape, decimal digits, canonical header names for names of letters and hyphens, the encoding of
  query values that need no escaping, two durations, and \<open>gzip.NewReader\<close> on streams
  that are cut short inside the trailer (it accepts the header and the stream then fails
  with an unexpected end) or that do not start with a gzip header. \<open>example_models\<close>
  stands for the line-protocol package on the example's body: every non-empty line after
  the leading zero bytes is a point, and a point is serialized as its line.
\<close>

definition lower_byte :: "char \<Rightarrow> char" where
  "lower_byte c =
     (case map_of (zip upper_letters lower_letters) c of
        None \<Rightarrow> c
      | Some l \<Rightarrow> l)"

fun canonical :: "bool \<Rightarrow> string \<Rightarrow> string" where
  "canonical up [] = []"
| "canonical up (c # cs) =
     (if up then upper_byte c else lower_byte c) # canonical (c = CHR ''-'') cs"

fun decimal :: "nat \<Rightarrow> string" where
  "decimal n =
     (if n < 10 then [''0123456789'' ! n]
      else decimal (n div 10) @ [''0123456789'' ! (n mod 10)])"

declare decimal.simps [simp del]

fun join_amp :: "string list \<Rightarrow> string" where
  "join_amp [] = []"
| "join_amp [x] = x"
| "join_amp (x # y # ys) = x @ ''&'' @ join_amp (y # ys)"

definition encode_keys :: "string list \<Rightarrow> Values \<Rightarrow> string" where
  "encode_keys ks vs =
     join_amp (concat (map (\<lambda>k. map (\<lambda>v. k @ ''='' @ v) (case vs k of None \<Rightarrow> [] | Some l \<Rightarrow> l)) ks))"

definition example_lib :: stdlib where
  "example_lib =
     \<lparr> fmt_q = (\<lambda>s. [CHR 0x22] @ s @ [CHR 0x22]),
       fmt_Sprint = decimal,
       CanonicalHeaderKey = canonical True,
       unicode_ToUpper = (\<lambda>s. s),
       Values_Encode = encode_keys [''db'', ''precision'', ''q'', ''rp''],
       ParseDuration =
         (\<lambda>s. if s = ''10s'' then Inr (10 * Second)
              else if s = ''5s'' then Inr (5 * Second)
              else Inl (''time: invalid duration '' @ s)),
       gzip_NewReader =
         (\<lambda>s. case s of
                Inl e \<Rightarrow> Inl e
              | Inr bs \<Rightarrow>
                  if take 3 bs = [CHR 0x1F, CHR 0x8B, CHR 0x08]
                  then Inr (Inl ''unexpected EOF'')
                  else Inl ''gzip: invalid header'') \<rparr>"

definition example_models :: "string models" where
  "example_models =
     \<lparr> ParsePointsWithPrecision =
         (\<lambda>buf start precision.
            Inr (filter (\<lambda>l. l \<noteq> [])
                   (strings_Split (dropWhile (\<lambda>c. c = CHR 0x00) buf) (CHR 0x0A)))),
       PrecisionString = (\<lambda>pt precision. pt) \<rparr>"

text \<open>A relay with two write backends (the second one buffered) and two query backends;
  \<open>example_relay\<close> is what \<open>NewHTTP\<close> builds from \<open>example_config\<close>. On the wire the
  backend \<open>db1\<close> answers every post with a 503 response and the other one refuses the
  connection.\<close>

definition example_config :: HTTPConfig where
  "example_config =
     \<lparr> Addr = '':9096'', Name_c = ''example'', SSLCombinedPem = [],
       DefaultRetentionPolicy = [],
       Outputs =
         [\<lparr> Name = ''db1'', Location = ''http://db1:8086/write'', Timeout = ''10s'',
            SkipTLSVerification = False, BufferSizeMB = 0, MaxBatchKB = 0,
            MaxDelayInterval = [] \<rparr>,
          \<lparr> Name = ''db2'', Location = ''https://db2:8086/write'', Timeout = [],
            SkipTLSVerification = True, BufferSizeMB = 1, MaxBatchKB = 0,
            MaxDelayInterval = ''5s'' \<rparr>],
       Queries =
         [\<lparr> Name_q = ''db1'', Location_q = ''http://db1:8086/query'', Timeout_q = [] \<rparr>,
          \<lparr> Name_q = [], Location_q = ''https://db2:8086/query'', Timeout_q = ''5s'' \<rparr>] \<rparr>"

definition example_relay :: HTTP where
  "example_relay =
     \<lparr> addr = '':9096'', relay_name = ''example'', schema = ''http'', cert = [], rp = [],
       closing = 0,
       backends =
         [\<lparr> poster = Simple (newSimplePoster ''http://db1:8086/write'' (10 * Second) False),
            name = ''db1'' \<rparr>,
          \<lparr> poster =
              Buffered
                (newRetryBuffer (1 * MB) (DefaultBatchSizeKB * KB) (5 * Second)
                   (newSimplePoster ''https://db2:8086/write'' DefaultHTTPTimeout True)),
            name = ''db2'' \<rparr>],
       queries =
         [\<lparr> poster = Simple (newSimplePoster ''http://db1:8086/query'' DefaultHTTPTimeout True),
            name = ''db1'' \<rparr>,
          \<lparr> poster = Simple (newSimplePoster ''https://db2:8086/query'' (5 * Second) True),
            name = ''https://db2:8086/query'' \<rparr>] \<rparr>"

definition example_wire :: wire where
  "example_wire b buf query auth =
     (if name b = ''db1''
      then Inr \<lparr> Headers = [(''content-type'', ''application/json'')], StatusCode = 503,
                 Body = ''answer of db1'' \<rparr>
      else Inl ''connection refused'')"

text \<open>A query request with the given \<open>q\<close> parameter; the write request of the
  specification's first scenario; and the same request with a gzip body whose trailer
  is cut short.\<close>

definition query_request :: "string \<Rightarrow> Request" where
  "query_request q =
     \<lparr> Method = ''GET'', URL_Path = ''/query'', URL_Query = [''q'' \<mapsto> [q]],
       Header_Get = (\<lambda>k. []), ReqBody = Inr [] \<rparr>"

definition write_request :: Request where
  "write_request =
     \<lparr> Method = ''POST'', URL_Path = ''/write'',
       URL_Query = [''db'' \<mapsto> [''x''], ''precision'' \<mapsto> [''s'']],
       Header_Get = (\<lambda>k. []), ReqBody = Inr ''cpu value=1 1700000000'' \<rparr>"

definition gzip_request :: Request where
  "gzip_request =
     write_request
       \<lparr> Header_Get := (\<lambda>k. if k = ''Content-Encoding'' then ''gzip'' else []),
         ReqBody := Inr [CHR 0x1F, CHR 0x8B, CHR 0x08, CHR 0x00, CHR 0x00, CHR 0x00, CHR 0x00,
                        CHR 0x00, CHR 0x00, CHR 0x03, CHR 0x03, CHR 0x00, CHR 0x00, CHR 0x00,
                        CHR 0x00, CHR 0x00] \<rparr>"

text \<open>A write backend's retry buffer as \<open>newHTTPBackend\<close> builds it from
  \<open>buffer-size-mb = 1\<close> and the defaults: batches of 512 KB, a maximal interval of 10 s.\<close>

definition example_buffer :: retryBuffer where
  "example_buffer =
     newRetryBuffer (1 * MB) (DefaultBatchSizeKB * KB) DefaultMaxDelayInterval
       (newSimplePoster ''http://db:8086/write'' DefaultHTTPTimeout False)"

section \<open>Properties of the retry buffer\<close>

subsection \<open>Auxiliary facts\<close>

lemma go_quot_100_eq_5: "go_quot x 100 = 5 \<longleftrightarrow> 500 \<le> x \<and> x < 600"
proof (cases "0 \<le> x")
  case True
  then have "go_quot x 100 = x div 100"
    by (cases "x = 0") (simp_all add: go_quot_def)
  then show ?thesis using True by auto
next
  case False
  then have "go_quot x 100 = - (\<bar>x\<bar> div 100)"
    by (simp add: go_quot_def)
  moreover have "0 \<le> \<bar>x\<bar> div 100" by simp
  ultimately show ?thesis using False by linarith
qed

lemma post_ok_iff:
  "post_ok res \<longleftrightarrow>
     (case res of Inl e \<Rightarrow> False
      | Inr resp \<Rightarrow> \<not> (500 \<le> StatusCode resp \<and> StatusCode resp < 600))"
  by (simp add: post_ok_def go_quot_100_eq_5 split: sum.splits)

lemma sint_double:
  fixes i :: Duration
  assumes "0 < sint i" "sint i < 2 ^ 62"
  shows "sint (i * 2) = 2 * sint i"
proof -
  have "sint (i * 2) = signed_take_bit 63 (sint i * 2)"
    by (simp add: sint_word_ariths)
  also have "\<dots> = sint i * 2"
    using assms by (intro signed_take_bit_int_eq_self) simp_all
  finally show ?thesis by simp
qed

lemma next_interval_new:
  "next_interval (newRetryBuffer sz batch mx po) i =
     (if i \<le>s mx then (if mx <s i * 2 then mx else i * 2) else i)"
  by (simp add: next_interval_def newRetryBuffer_def retryMultiplier_def)

text \<open>Against a poster that fails every time, the loop gives the data up as soon as the
  interval has been doubled up to the maximal one: \<open>k\<close> doublings are enough when
  \<open>2 ^ k\<close> times the interval reaches it.\<close>

lemma flush_gives_up_aux:
  assumes r: "r = newRetryBuffer sz batch mx po" and mx: "sint mx \<le> 2 ^ 62"
  shows "0 < sint i \<Longrightarrow> sint mx \<le> sint i * 2 ^ k \<Longrightarrow> k < length answers \<Longrightarrow>
         list_all (\<lambda>res. \<not> post_ok res) answers \<Longrightarrow>
         \<exists>tr. postToInfluxDB_loop r i answers data query auth = Some (tr @ [LogLost data])
            \<and> length (filter (\<lambda>e. e = Post data query auth) tr) \<le> Suc k"
proof (induction k arbitrary: i answers)
  case 0
  then obtain res rest where a: "answers = res # rest" by (cases answers) auto
  have "maxInterval r \<le>s i" using 0 r by (simp add: word_sle_eq newRetryBuffer_def)
  then show ?case using 0 a by (intro exI [of _ "[Post data query auth]"]) simp
next
  case (Suc k)
  then obtain res rest where a: "answers = res # rest" by (cases answers) auto
  show ?case
  proof (cases "maxInterval r \<le>s i")
    case True
    then show ?thesis using Suc.prems a by (intro exI [of _ "[Post data query auth]"]) simp
  next
    case False
    then have lt: "sint i < sint mx" using r by (simp add: word_sle_eq newRetryBuffer_def)
    then have d: "sint (i * 2) = 2 * sint i"
      using Suc.prems(1) mx by (intro sint_double) simp_all
    let ?n = "next_interval r i"
    have n: "sint ?n = min (2 * sint i) (sint mx)"
      using lt d r by (simp add: next_interval_new word_sle_eq word_sless_alt min_def)
    have pos: "0 < sint ?n" using n Suc.prems(1) lt by simp
    have "sint mx \<le> sint mx * 2 ^ k" using lt Suc.prems(1)
      by (simp add: mult_le_cancel_left1)
    then have b: "sint mx \<le> sint ?n * 2 ^ k" using n Suc.prems(2) by (simp add: min_def)
    have "\<exists>tr. postToInfluxDB_loop r ?n rest data query auth = Some (tr @ [LogLost data])
            \<and> length (filter (\<lambda>e. e = Post data query auth) tr) \<le> Suc k"
      using Suc.IH [OF pos b] Suc.prems a by simp
    then obtain tr where
      t: "postToInfluxDB_loop r ?n rest data query auth = Some (tr @ [LogLost data])"
         "length (filter (\<lambda>e. e = Post data query auth) tr) \<le> Suc k"
      by blast
    show ?thesis using False Suc.prems a t
      by (intro exI [of _ "Post data query auth # Sleep ?n # tr"]) simp
  qed
qed

lemma flush_gives_up:
  assumes "sint mx \<le> 2 ^ 62" "35 \<le> length answers" "list_all (\<lambda>res. \<not> post_ok res) answers"
  shows "\<exists>tr. postToInfluxDB (newRetryBuffer sz batch mx po) answers data query auth =
               Some (tr @ [LogLost data])
            \<and> length (filter (\<lambda>e. e = Post data query auth) tr) \<le> 35"
proof -
  have i: "sint retryInitial = 500000000"
    by (simp add: retryInitial_def Millisecond_def)
  have "sint mx \<le> sint retryInitial * 2 ^ 34" using assms(1) i by simp
  moreover have "0 < sint retryInitial" using i by simp
  moreover have "34 < length answers" using assms(2) by simp
  ultimately have
    "\<exists>tr. postToInfluxDB_loop (newRetryBuffer sz batch mx po) retryInitial answers data query auth
             = Some (tr @ [LogLost data])
        \<and> length (filter (\<lambda>e. e = Post data query auth) tr) \<le> Suc 34"
    using assms(1,3) by (intro flush_gives_up_aux [OF refl]) simp_all
  then show ?thesis by (simp add: postToInfluxDB_def newRetryBuffer_def)
qed

lemma addToCache_loop_sizes:
  "list_all size_ok items \<Longrightarrow> list_all size_ok (fst (addToCache_loop points items))"
  by (induction items) (simp_all add: size_ok_def)

lemma addToCache_loop_keys:
  "map key (fst (addToCache_loop points items)) = map key items"
  by (induction items) (simp_all add: key_def)

lemma addToCache_loop_miss:
  "\<not> snd (addToCache_loop points items) \<Longrightarrow>
     (Query_bp points, Auth_bp points) \<notin> set (map key items)"
  by (induction items) (auto simp: key_def split: if_splits)

lemma addToCache_ok:
  assumes "cache_ok items"
  shows "cache_ok (addToCache now points items)"
proof (cases "snd (addToCache_loop points items)")
  case True
  then show ?thesis
    using assms
    by (simp add: addToCache_def cache_ok_def addToCache_loop_sizes addToCache_loop_keys)
next
  case False
  then have "(Query_bp points, Auth_bp points) \<notin> set (map key items)"
    by (rule addToCache_loop_miss)
  then show ?thesis
    using assms False
    by (simp add: addToCache_def cache_ok_def addToCache_loop_sizes addToCache_loop_keys
        size_ok_def key_def)
qed

lemma distinct_drop_nth:
  "distinct ys \<Longrightarrow> distinct (take i ys @ drop (Suc i) ys)"
proof (induction ys arbitrary: i)
  case Nil
  then show ?case by simp
next
  case (Cons y ys)
  then show ?case
    by (cases i) (auto dest: in_set_takeD in_set_dropD)
qed

lemma distinct_remove_nth:
  assumes "distinct (map f xs)"
  shows "distinct (map f (take i xs @ drop (Suc i) xs))"
  using distinct_drop_nth [OF assms, of i] by (simp add: take_map drop_map)

lemma take_length_append: "length xs = n \<Longrightarrow> take n (xs @ ys) = xs"
  by simp

lemma scan_step_ok: "scan_ok s \<Longrightarrow> scan_ok (scan_step r clock index s)"
proof (cases s)
  case (Scanning backing len out)
  assume ok: "scan_ok s"
  show ?thesis
  proof (cases "flush_due r (clock index) (backing ! index)")
    case False
    then show ?thesis using ok Scanning by simp
  next
    case due: True
    show ?thesis
    proof (cases "len < index + 1")
      case True
      then show ?thesis using ok Scanning due
        by (auto simp: cache_ok_def list_all_iff dest: in_set_takeD)
    next
      case False
      define V where "V = take len backing"
      have len: "len \<le> length backing" "index < len" using ok Scanning False by auto
      have V: "take index backing = take index V" "length V = len"
        using len by (simp_all add: V_def min_def)
      have d: "distinct (map key (take index V @ drop (Suc index) V))"
        using ok Scanning distinct_remove_nth [of key V index] by (simp add: V_def)
      have n: "length (take index V @ drop (Suc index) V) = len - 1"
        using len V by simp
      have "take (len - 1) ((take index V @ drop (Suc index) V) @ drop (len - 1) backing)
          = take index V @ drop (Suc index) V"
        by (rule take_length_append [OF n])
      then have t:
        "take (len - 1)
           (take index backing @ drop (index + 1) (take len backing) @ drop (len - 1) backing)
          = take index V @ drop (Suc index) V"
        using V by (simp add: V_def)
      have s: "list_all size_ok
                 (take index backing @ drop (index + 1) (take len backing) @
                    drop (len - 1) backing)"
        using ok Scanning by (auto simp: list_all_iff dest: in_set_takeD in_set_dropD)
      show ?thesis using Scanning due False d t s len by simp
    qed
  qed
next
  case (Panicked items out)
  assume "scan_ok s"
  then show ?thesis using Panicked by simp
qed

lemma scan_ok_items: "scan_ok s \<Longrightarrow> cache_ok (scan_items s)"
  by (cases s) (auto simp: cache_ok_def list_all_iff dest: in_set_takeD)

lemma scan_fold_ok: "scan_ok s \<Longrightarrow> scan_ok (fold (scan_step r clock) is s)"
  by (induction "is" arbitrary: s) (simp_all add: scan_step_ok)

lemma scan_cached_ok: "cache_ok items \<Longrightarrow> scan_ok (scan_cached r clock items)"
  unfolding scan_cached_def by (rule scan_fold_ok) (simp add: cache_ok_def)

lemma receive_ok: "cache_ok (cachedItems r) \<Longrightarrow> cache_ok (cachedItems (receive now r))"
  by (simp add: receive_def addToCache_ok split: list.splits)

lemma run_pass_ok:
  assumes "cache_ok (cachedItems (rb w))"
  shows "cache_ok (cachedItems (rb (run_pass now clock w)))"
proof (cases "dead w")
  case True
  then show ?thesis using assms by (simp add: run_pass_def)
next
  case False
  have "scan_ok (scan_cached (receive now (rb w)) clock (cachedItems (receive now (rb w))))"
    using assms by (simp add: scan_cached_ok receive_ok)
  then show ?thesis using False
    by (auto simp: run_pass_def cache_ok_def list_all_iff split: scan.splits dest: in_set_takeD)
qed

lemma buffer_step_ok:
  "cache_ok (cachedItems (rb w)) \<Longrightarrow> cache_ok (cachedItems (rb (buffer_step ev w)))"
  by (cases ev)
    (auto simp: run_pass_ok retryBuffer_post_def chan_send_def split: blocking.splits)

lemma run_events_ok:
  "cache_ok (cachedItems (rb w)) \<Longrightarrow> cache_ok (cachedItems (rb (run_events evs w)))"
  unfolding run_events_def by (induction evs arbitrary: w) (simp_all add: buffer_step_ok)

text \<open>Admissions with no pass of the worker in between pile up in the channel.\<close>

lemma chan_fill:
  "length (chan_buf (itemChan (rb w))) + n \<le> chan_cap (itemChan (rb w)) \<Longrightarrow>
   itemChan (rb (run_events (replicate n (Admit buf query auth)) w)) =
     (itemChan (rb w))\<lparr> chan_buf := chan_buf (itemChan (rb w)) @
        replicate n \<lparr> Query_bp = query, Auth_bp = auth, Data = buf \<rparr> \<rparr>"
proof (induction n arbitrary: w)
  case 0
  then show ?case by (simp add: run_events_def)
next
  case (Suc n)
  let ?w = "buffer_step (Admit buf query auth) w"
  have s: "itemChan (rb ?w) = (itemChan (rb w))\<lparr> chan_buf := chan_buf (itemChan (rb w)) @
        [\<lparr> Query_bp = query, Auth_bp = auth, Data = buf \<rparr>] \<rparr>"
    using Suc.prems by (simp add: retryBuffer_post_def chan_send_def)
  have "length (chan_buf (itemChan (rb ?w))) + n \<le> chan_cap (itemChan (rb ?w))"
    using Suc.prems s by simp
  from Suc.IH [OF this] show ?case
    using s by (simp add: run_events_def replicate_app_Cons_same)
qed

subsection \<open>The claims about the retry buffer\<close>

text \<open>
  C2. Two admissions with the same key between two flushes should be flushed as one
  payload, the concatenation of both. The code does not do that: the admission that
  creates the cached batch leaves its accumulator empty (lines 91-97 never write
  \<open>points.Data\<close>), so after admitting \<open>a\<close> and then \<open>b\<close> under one key the accumulator
  holds \<open>b\<close> alone, and the flush of the admissions \<open>A\<close> and \<open>B\<close> posts \<open>B\<close>.
\<close>

theorem first_admission_lost:
  "addToCache t2 \<lparr> Query_bp = q, Auth_bp = au, Data = b \<rparr>
     (addToCache t1 \<lparr> Query_bp = q, Auth_bp = au, Data = a \<rparr> []) =
     [\<lparr> Query = q, Auth = au, Buf = b, BufSize = int (length b), Time = t1 \<rparr>]
   \<and> flushes (run_events
        [Admit ''A'' ''db=x'' [], Pass 0 (\<lambda>i. 0), Admit ''B'' ''db=x'' [], Pass 1 (\<lambda>i. 1),
         Pass 11000000000 (\<lambda>i. 11000000000)]
        (start_worker example_buffer)) = [(''B'', ''db=x'', [])]"
proof
  show "addToCache t2 \<lparr> Query_bp = q, Auth_bp = au, Data = b \<rparr>
     (addToCache t1 \<lparr> Query_bp = q, Auth_bp = au, Data = a \<rparr> []) =
     [\<lparr> Query = q, Auth = au, Buf = b, BufSize = int (length b), Time = t1 \<rparr>]"
    by (simp add: addToCache_def)
  show "flushes (run_events
        [Admit ''A'' ''db=x'' [], Pass 0 (\<lambda>i. 0), Admit ''B'' ''db=x'' [], Pass 1 (\<lambda>i. 1),
         Pass 11000000000 (\<lambda>i. 11000000000)]
        (start_worker example_buffer)) = [(''B'', ''db=x'', [])]"
    by (simp add: run_events_def start_worker_def example_buffer_def newRetryBuffer_def
        retryBuffer_post_def chan_send_def make_chan_def run_pass_def receive_def
        addToCache_def scan_cached_def flush_due_def time_Sub_def
        DefaultMaxDelayInterval_def Second_def Millisecond_def MB_def KB_def)
qed

text \<open>
  C3. \<open>post\<close> should never block: with the channel full the caller should see the
  admission dropped. The code sends on the channel with a plain send statement: once
  10000 admissions wait in the channel, the next call of \<open>post\<close> blocks, and drops
  nothing and returns nothing. (While the channel has room, as in a new buffer, the call
  returns the synthetic 204 response.)
\<close>

theorem post_blocks_when_full:
  "retryBuffer_post
     (rb (run_events (replicate 10000 (Admit buf query auth))
            (start_worker (newRetryBuffer sz batch mx po))))
     buf' query' auth' = Blocks
   \<and> retryBuffer_post (newRetryBuffer sz batch mx po) buf query auth =
       Returns
         ((newRetryBuffer sz batch mx po)
            \<lparr> itemChan :=
                \<lparr> chan_cap = 10000,
                  chan_buf = [\<lparr> Query_bp = query, Auth_bp = auth, Data = buf \<rparr>] \<rparr> \<rparr>,
          Inr \<lparr> Headers = [], StatusCode = 204, Body = [] \<rparr>)"
proof
  let ?w = "start_worker (newRetryBuffer sz batch mx po)"
  have "length (chan_buf (itemChan (rb ?w))) + 10000 \<le> chan_cap (itemChan (rb ?w))"
    by (simp add: start_worker_def newRetryBuffer_def make_chan_def)
  from chan_fill [OF this]
  show "retryBuffer_post (rb (run_events (replicate 10000 (Admit buf query auth)) ?w))
          buf' query' auth' = Blocks"
    by (simp add: retryBuffer_post_def chan_send_def start_worker_def newRetryBuffer_def
        make_chan_def)
  show "retryBuffer_post (newRetryBuffer sz batch mx po) buf query auth =
       Returns
         ((newRetryBuffer sz batch mx po)
            \<lparr> itemChan :=
                \<lparr> chan_cap = 10000,
                  chan_buf = [\<lparr> Query_bp = query, Auth_bp = auth, Data = buf \<rparr>] \<rparr> \<rparr>,
          Inr \<lparr> Headers = [], StatusCode = 204, Body = [] \<rparr>)"
    by (simp add: retryBuffer_post_def chan_send_def newRetryBuffer_def make_chan_def)
qed

text \<open>
  C4, as the claim states it, fails: the claim has the flush sleep the current interval
  and give the data up when the next interval would reach the maximal one. With a
  maximal interval of 10 s and five failures before a success, the first sleep is the
  doubled interval (1 s, not 500 ms), and at the fifth failure the interval is 8 s, its
  double is beyond 10 s, and yet the loop sleeps 10 s, posts a sixth time and sends the
  data.
\<close>

theorem backoff_counterexample:
  "maxInterval example_buffer \<le>s 8 * Second * multiplier example_buffer
   \<and> postToInfluxDB example_buffer
       [Inl ''refused'', Inl ''refused'', Inl ''refused'', Inl ''refused'', Inl ''refused'',
        Inr \<lparr> Headers = [], StatusCode = 204, Body = [] \<rparr>] ''m v=1'' ''db=x'' [] =
     Some [Post ''m v=1'' ''db=x'' [], Sleep (1 * Second),
           Post ''m v=1'' ''db=x'' [], Sleep (2 * Second),
           Post ''m v=1'' ''db=x'' [], Sleep (4 * Second),
           Post ''m v=1'' ''db=x'' [], Sleep (8 * Second),
           Post ''m v=1'' ''db=x'' [], Sleep (10 * Second),
           Post ''m v=1'' ''db=x'' [], LogSend 5]"
  by (simp add: postToInfluxDB_def example_buffer_def newRetryBuffer_def next_interval_def
      post_ok_def go_quot_def retryInitial_def retryMultiplier_def
      DefaultMaxDelayInterval_def Second_def Millisecond_def)

text \<open>
  C4, amended. An attempt that succeeds (no transport error and a status outside
  500..599) ends the flush at once, with no sleep. An attempt that fails while the current
  interval has reached the maximal one gives the data up, with no further attempt. Any
  other failed attempt is followed by a sleep of the doubled interval, capped at the
  maximal one (in 64-bit arithmetic), and by the next attempt with that interval. With a
  maximal interval of at most \<open>2 ^ 62\<close> ns the data is given up at the latest at the
  35th failure in a row.
\<close>

theorem flush_backoff:
  "(post_ok res \<longleftrightarrow>
      (case res of Inl e \<Rightarrow> False
       | Inr resp \<Rightarrow> \<not> (500 \<le> StatusCode resp \<and> StatusCode resp < 600)))
   \<and> (post_ok res \<longrightarrow>
        postToInfluxDB_loop r interval (res # answers) data query auth =
          Some [Post data query auth, LogSend (length data)])
   \<and> (\<not> post_ok res \<and> maxInterval r \<le>s interval \<longrightarrow>
        postToInfluxDB_loop r interval (res # answers) data query auth =
          Some [Post data query auth, LogLost data])
   \<and> (\<not> post_ok res \<and> \<not> maxInterval r \<le>s interval \<longrightarrow>
        postToInfluxDB_loop r interval (res # answers) data query auth =
          map_option (\<lambda>tr. Post data query auth # Sleep (next_interval r interval) # tr)
            (postToInfluxDB_loop r (next_interval r interval) answers data query auth))
   \<and> (\<not> mx \<le>s interval \<longrightarrow>
        next_interval (newRetryBuffer sz batch mx po) interval =
          (if mx <s interval * 2 then mx else interval * 2))
   \<and> (sint mx \<le> 2 ^ 62 \<and> 35 \<le> length fails \<and> list_all (\<lambda>res. \<not> post_ok res) fails \<longrightarrow>
        (\<exists>tr. postToInfluxDB (newRetryBuffer sz batch mx po) fails data query auth =
                 Some (tr @ [LogLost data])
             \<and> length (filter (\<lambda>e. e = Post data query auth) tr) \<le> 35))"
proof (intro conjI impI)
  show "post_ok res \<longleftrightarrow>
      (case res of Inl e \<Rightarrow> False
       | Inr resp \<Rightarrow> \<not> (500 \<le> StatusCode resp \<and> StatusCode resp < 600))"
    by (rule post_ok_iff)
next
  assume "post_ok res"
  then show "postToInfluxDB_loop r interval (res # answers) data query auth =
          Some [Post data query auth, LogSend (length data)]"
    by simp
next
  assume "\<not> post_ok res \<and> maxInterval r \<le>s interval"
  then show "postToInfluxDB_loop r interval (res # answers) data query auth =
          Some [Post data query auth, LogLost data]"
    by simp
next
  assume "\<not> post_ok res \<and> \<not> maxInterval r \<le>s interval"
  then show "postToInfluxDB_loop r interval (res # answers) data query auth =
          map_option (\<lambda>tr. Post data query auth # Sleep (next_interval r interval) # tr)
            (postToInfluxDB_loop r (next_interval r interval) answers data query auth)"
    by (simp split: option.splits)
next
  assume "\<not> mx \<le>s interval"
  then have "interval \<le>s mx" by (simp add: word_sle_eq)
  then show "next_interval (newRetryBuffer sz batch mx po) interval =
          (if mx <s interval * 2 then mx else interval * 2)"
    by (simp add: next_interval_new)
next
  assume "sint mx \<le> 2 ^ 62 \<and> 35 \<le> length fails \<and> list_all (\<lambda>res. \<not> post_ok res) fails"
  then show "\<exists>tr. postToInfluxDB (newRetryBuffer sz batch mx po) fails data query auth =
                 Some (tr @ [LogLost data])
             \<and> length (filter (\<lambda>e. e = Post data query auth) tr) \<le> 35"
    by (intro flush_gives_up) simp_all
qed

theorem flush_backoff_witness:
  "postToInfluxDB_loop example_buffer (8 * Second)
     [Inl ''refused'', Inr \<lparr> Headers = [], StatusCode = 204, Body = [] \<rparr>]
     ''m v=1'' ''db=x'' [] =
     Some [Post ''m v=1'' ''db=x'' [], Sleep (10 * Second),
           Post ''m v=1'' ''db=x'' [], LogSend 5]
   \<and> postToInfluxDB_loop example_buffer (10 * Second)
       [Inr \<lparr> Headers = [], StatusCode = 503, Body = [] \<rparr>] ''m v=1'' ''db=x'' [] =
     Some [Post ''m v=1'' ''db=x'' [], LogLost ''m v=1'']
   \<and> (\<exists>tr. postToInfluxDB example_buffer (replicate 35 (Inl ''refused''))
              ''m v=1'' ''db=x'' [] = Some (tr @ [LogLost ''m v=1'']))"
proof (intro conjI)
  have no: "\<not> post_ok (Inl ''refused'')" by (simp add: post_ok_def)
  have yes: "post_ok (Inr \<lparr> Headers = [], StatusCode = 204, Body = [] \<rparr>)"
    by (simp add: post_ok_def go_quot_def)
  have below: "\<not> maxInterval example_buffer \<le>s 8 * Second"
    by (simp add: example_buffer_def newRetryBuffer_def DefaultMaxDelayInterval_def
        Second_def Millisecond_def)
  have nxt: "next_interval example_buffer (8 * Second) = 10 * Second"
    by (simp add: example_buffer_def newRetryBuffer_def next_interval_def
        retryMultiplier_def DefaultMaxDelayInterval_def Second_def Millisecond_def)
  have "postToInfluxDB_loop example_buffer (8 * Second)
     [Inl ''refused'', Inr \<lparr> Headers = [], StatusCode = 204, Body = [] \<rparr>]
     ''m v=1'' ''db=x'' [] =
     map_option (\<lambda>tr. Post ''m v=1'' ''db=x'' [] # Sleep (10 * Second) # tr)
       (postToInfluxDB_loop example_buffer (10 * Second)
          [Inr \<lparr> Headers = [], StatusCode = 204, Body = [] \<rparr>] ''m v=1'' ''db=x'' [])"
    using flush_backoff [of "Inl ''refused''" example_buffer "8 * Second"] no below nxt
    by simp
  moreover have "postToInfluxDB_loop example_buffer (10 * Second)
          [Inr \<lparr> Headers = [], StatusCode = 204, Body = [] \<rparr>] ''m v=1'' ''db=x'' [] =
        Some [Post ''m v=1'' ''db=x'' [], LogSend 5]"
    using flush_backoff
      [of "Inr \<lparr> Headers = [], StatusCode = 204, Body = [] \<rparr>" example_buffer "10 * Second"
          "[]" "''m v=1''"]
      yes
    by simp
  ultimately show "postToInfluxDB_loop example_buffer (8 * Second)
     [Inl ''refused'', Inr \<lparr> Headers = [], StatusCode = 204, Body = [] \<rparr>]
     ''m v=1'' ''db=x'' [] =
     Some [Post ''m v=1'' ''db=x'' [], Sleep (10 * Second),
           Post ''m v=1'' ''db=x'' [], LogSend 5]"
    by simp
next
  have no: "\<not> post_ok (Inr \<lparr> Headers = [], StatusCode = 503, Body = [] \<rparr>)"
    by (simp add: post_ok_iff)
  have reached: "maxInterval example_buffer \<le>s 10 * Second"
    by (simp add: example_buffer_def newRetryBuffer_def DefaultMaxDelayInterval_def)
  show "postToInfluxDB_loop example_buffer (10 * Second)
       [Inr \<lparr> Headers = [], StatusCode = 503, Body = [] \<rparr>] ''m v=1'' ''db=x'' [] =
     Some [Post ''m v=1'' ''db=x'' [], LogLost ''m v=1'']"
    using flush_backoff
      [of "Inr \<lparr> Headers = [], StatusCode = 503, Body = [] \<rparr>" example_buffer "10 * Second"]
      no reached
    by blast
next
  have mx: "sint (DefaultMaxDelayInterval) \<le> 2 ^ 62"
    by (simp add: DefaultMaxDelayInterval_def Second_def Millisecond_def)
  have fails: "list_all (\<lambda>res. \<not> post_ok res) (replicate 35 (Inl ''refused''))"
    by (simp add: list_all_iff post_ok_def)
  have "\<exists>tr. postToInfluxDB
               (newRetryBuffer (1 * MB) (DefaultBatchSizeKB * KB) DefaultMaxDelayInterval
                  (newSimplePoster ''http://db:8086/write'' DefaultHTTPTimeout False))
               (replicate 35 (Inl ''refused'')) ''m v=1'' ''db=x'' [] =
               Some (tr @ [LogLost ''m v=1''])
           \<and> length (filter (\<lambda>e. e = Post ''m v=1'' ''db=x'' []) tr) \<le> 35"
    using flush_backoff
      [where mx = DefaultMaxDelayInterval and fails = "replicate 35 (Inl ''refused'')"]
      mx fails
    by simp
  then show "\<exists>tr. postToInfluxDB example_buffer (replicate 35 (Inl ''refused''))
              ''m v=1'' ''db=x'' [] = Some (tr @ [LogLost ''m v=1''])"
    unfolding example_buffer_def by blast
qed

text \<open>
  C8. After any sequence of admissions and passes of the processing loop, from the buffer
  \<open>newRetryBuffer\<close> makes, the \<open>BufSize\<close> of every cached batch is the length of its
  accumulator and no two cached batches have the same (query, auth) key. The same holds
  for the state in which the worker panics, and for \<open>r.cachedItems\<close> after any number
  of steps of the scan of the next pass. (\<open>BufSize\<close> is read as an unbounded integer: a
  buffer of more than \<open>2 ^ 63\<close> bytes does not exist.)
\<close>

theorem cache_invariant:
  "cache_ok (cachedItems (rb (run_events evs (start_worker (newRetryBuffer sz batch mx po)))))
   \<and> cache_ok
       (scan_items
          (fold
             (scan_step
                (receive now (rb (run_events evs (start_worker (newRetryBuffer sz batch mx po)))))
                clock)
             [0 ..< n]
             (Scanning
                (cachedItems
                   (receive now
                      (rb (run_events evs (start_worker (newRetryBuffer sz batch mx po))))))
                (length
                   (cachedItems
                      (receive now
                         (rb (run_events evs (start_worker (newRetryBuffer sz batch mx po)))))))
                [])))"
proof
  let ?w = "run_events evs (start_worker (newRetryBuffer sz batch mx po))"
  show ok: "cache_ok (cachedItems (rb ?w))"
    by (rule run_events_ok) (simp add: start_worker_def newRetryBuffer_def cache_ok_def)
  let ?items = "cachedItems (receive now (rb ?w))"
  have "cache_ok ?items" using ok by (rule receive_ok)
  then have "scan_ok (Scanning ?items (length ?items) [])"
    by (simp add: cache_ok_def)
  then have "scan_ok (fold (scan_step (receive now (rb ?w)) clock) [0 ..< n]
      (Scanning ?items (length ?items) []))"
    by (rule scan_fold_ok)
  then show "cache_ok (scan_items (fold (scan_step (receive now (rb ?w)) clock) [0 ..< n]
      (Scanning ?items (length ?items) [])))"
    by (rule scan_ok_items)
qed

theorem cache_invariant_witness:
  "cachedItems (rb (run_events
      [Admit ''A'' ''db=x'' [], Pass 0 (\<lambda>i. 0), Admit ''B'' ''db=x'' [], Pass 1 (\<lambda>i. 1),
       Admit ''C'' ''db=y'' [], Pass 2 (\<lambda>i. 2)]
      (start_worker example_buffer))) =
     [\<lparr> Query = ''db=x'', Auth = [], Buf = ''B'', BufSize = 1, Time = 0 \<rparr>,
      \<lparr> Query = ''db=y'', Auth = [], Buf = [], BufSize = 0, Time = 2 \<rparr>]
   \<and> cache_ok (cachedItems (rb (run_events
      [Admit ''A'' ''db=x'' [], Pass 0 (\<lambda>i. 0), Admit ''B'' ''db=x'' [], Pass 1 (\<lambda>i. 1),
       Admit ''C'' ''db=y'' [], Pass 2 (\<lambda>i. 2)]
      (start_worker example_buffer))))"
proof
  show "cachedItems (rb (run_events
      [Admit ''A'' ''db=x'' [], Pass 0 (\<lambda>i. 0), Admit ''B'' ''db=x'' [], Pass 1 (\<lambda>i. 1),
       Admit ''C'' ''db=y'' [], Pass 2 (\<lambda>i. 2)]
      (start_worker example_buffer))) =
     [\<lparr> Query = ''db=x'', Auth = [], Buf = ''B'', BufSize = 1, Time = 0 \<rparr>,
      \<lparr> Query = ''db=y'', Auth = [], Buf = [], BufSize = 0, Time = 2 \<rparr>]"
    by (simp add: run_events_def start_worker_def example_buffer_def newRetryBuffer_def
        retryBuffer_post_def chan_send_def make_chan_def run_pass_def receive_def
        addToCache_def scan_cached_def flush_due_def time_Sub_def
        DefaultMaxDelayInterval_def Second_def Millisecond_def MB_def KB_def)
  show "cache_ok (cachedItems (rb (run_events
      [Admit ''A'' ''db=x'' [], Pass 0 (\<lambda>i. 0), Admit ''B'' ''db=x'' [], Pass 1 (\<lambda>i. 1),
       Admit ''C'' ''db=y'' [], Pass 2 (\<lambda>i. 2)]
      (start_worker example_buffer))))"
    unfolding example_buffer_def by (rule cache_invariant [THEN conjunct1])
qed

section \<open>Properties of the HTTP relay\<close>

subsection \<open>Auxiliary facts\<close>

lemma hd_Split: "strings_Split s sep = takeWhile (\<lambda>c. c \<noteq> sep) s # tl (strings_Split s sep)"
  by (induction s) (auto split: list.splits)

lemma Split_first:
  "(case strings_Split s sep of [] \<Rightarrow> a | token # others \<Rightarrow> f token) =
     f (takeWhile (\<lambda>c. c \<noteq> sep) s)"
  by (subst hd_Split) simp

lemma serveQuery_dispatch:
  "serveQuery lib wr draw h w r =
     (case routing_of (first_token lib (Values_Get (URL_Query r) ''q'')) of
        SingleNode \<Rightarrow> single_node_request lib wr draw h w r
      | AllNode \<Rightarrow> all_node_request lib wr h w r
      | Rejected \<Rightarrow> error_request lib w (first_token lib (Values_Get (URL_Query r) ''q'')))"
  unfolding serveQuery_def Split_first
  by (simp add: routing_of_def first_token_def whitespace_def)

lemma upper_fixed: "c \<notin> set lower_letters \<Longrightarrow> upper_byte c = c"
proof -
  assume "c \<notin> set lower_letters"
  moreover have "length lower_letters = length upper_letters"
    by (simp add: lower_letters_def upper_letters_def)
  ultimately have "map_of (zip lower_letters upper_letters) c = None"
    by (simp add: map_of_zip_is_None)
  then show ?thesis by (simp add: upper_byte_def)
qed

lemma upper_capital: "c \<in> set lower_letters \<Longrightarrow> upper_byte c \<in> set upper_letters"
proof -
  assume "c \<in> set lower_letters"
  moreover have "length lower_letters = length upper_letters"
    by (simp add: lower_letters_def upper_letters_def)
  ultimately obtain u where u: "map_of (zip lower_letters upper_letters) c = Some u"
    by (metis map_of_zip_is_None not_Some_eq)
  then have "u \<in> set upper_letters"
    by (meson map_of_SomeD set_zip_rightD)
  then show ?thesis using u by (simp add: upper_byte_def)
qed

lemma capital_not_lower: "c \<in> set upper_letters \<Longrightarrow> c \<notin> set lower_letters"
  by (auto simp: upper_letters_def lower_letters_def)

lemma capital_ascii: "c \<in> set upper_letters \<Longrightarrow> is_ascii c"
  by (auto simp: upper_letters_def is_ascii_def)

lemma upper_idem: "upper_byte (upper_byte c) = upper_byte c"
  by (cases "c \<in> set lower_letters")
    (simp_all add: upper_fixed upper_capital capital_not_lower)

lemma upper_ascii: "is_ascii c \<Longrightarrow> is_ascii (upper_byte c)"
  by (cases "c \<in> set lower_letters")
    (simp_all add: upper_fixed upper_capital capital_ascii)

lemma blank_token:
  assumes "list_all (\<lambda>c. c \<in> set whitespace) q"
  shows "first_token lib q = []"
proof -
  have w: "\<And>c. c \<in> set whitespace \<Longrightarrow> is_ascii c \<and> c \<notin> set lower_letters"
    by (auto simp: whitespace_def is_ascii_def lower_letters_def)
  have a: "list_all is_ascii q"
    using assms w by (auto simp: list_all_iff)
  have "map upper_byte q = q"
    using assms w by (auto simp: list_all_iff upper_fixed intro!: map_idI)
  then have u: "strings_ToUpper lib q = q"
    using a by (simp add: strings_ToUpper_def)
  have e: "dropWhile (\<lambda>c. c \<in> set whitespace) (rev q) = []"
    using assms by (simp add: dropWhile_eq_Nil_conv list_all_iff)
  have "strings_Trim q whitespace = []"
    by (simp only: strings_Trim_def trimLeft_def trimRight_def e rev.simps dropWhile.simps)
  then show ?thesis by (simp add: first_token_def u)
qed

text \<open>Changing the case of ASCII letters changes neither where the runes of a string
  begin nor any byte outside ASCII, so the upper-cased strings are the same.\<close>

lemma lower_is_ascii: "c \<in> set lower_letters \<Longrightarrow> is_ascii c"
  by (auto simp: lower_letters_def is_ascii_def)

lemma upper_byte_ascii_iff: "is_ascii (upper_byte c) = is_ascii c"
proof (cases "c \<in> set lower_letters")
  case True
  then show ?thesis by (simp add: lower_is_ascii upper_capital capital_ascii)
next
  case False
  then show ?thesis by (simp add: upper_fixed)
qed

lemma caseless_ascii: "upper_byte a = upper_byte b \<Longrightarrow> is_ascii a = is_ascii b"
  by (metis upper_byte_ascii_iff)

lemma not_lower: "\<not> is_ascii a \<Longrightarrow> a \<notin> set lower_letters"
  using lower_is_ascii by blast

lemma caseless_eq: "upper_byte a = upper_byte b \<Longrightarrow> \<not> is_ascii a \<Longrightarrow> a = b"
proof -
  assume e: "upper_byte a = upper_byte b" and n: "\<not> is_ascii a"
  then have nb: "\<not> is_ascii b" using caseless_ascii by blast
  have "upper_byte a = a" using n by (intro upper_fixed not_lower)
  moreover have "upper_byte b = b" using nb by (intro upper_fixed not_lower)
  ultimately show ?thesis using e by metis
qed

lemma in_range_not_ascii: "128 \<le> lo \<Longrightarrow> in_range lo hi c \<Longrightarrow> \<not> is_ascii c"
  by (simp add: in_range_def is_ascii_def)

lemma in_range_caseless:
  assumes "upper_byte a = upper_byte b" "128 \<le> lo"
  shows "in_range lo hi a = in_range lo hi b"
proof (cases "is_ascii a")
  case True
  then have "is_ascii b" using assms(1) caseless_ascii by blast
  then show ?thesis using True assms(2) in_range_not_ascii by blast
next
  case False
  then show ?thesis using assms(1) caseless_eq by blast
qed

lemma list_all_caseless:
  "map upper_byte xs = map upper_byte ys \<Longrightarrow> 128 \<le> lo \<Longrightarrow>
     list_all (in_range lo hi) xs = list_all (in_range lo hi) ys"
proof (induction xs arbitrary: ys)
  case Nil
  then show ?case by simp
next
  case (Cons x xs)
  then obtain y ys' where y: "ys = y # ys'" by (cases ys) auto
  then show ?case using Cons in_range_caseless [of x y lo hi] by simp
qed

lemma rune_seq_caseless:
  assumes "map upper_byte s = map upper_byte s'" "128 \<le> lo"
  shows "rune_seq sz lo hi s = rune_seq sz lo hi s'"
proof -
  have l: "length s = length s'" using assms(1) by (rule map_eq_imp_length_eq)
  show ?thesis
  proof (cases s)
    case Nil
    then show ?thesis using l by simp
  next
    case (Cons a t)
    then obtain b t' where s': "s' = b # t'" using l by (cases s') auto
    have h: "in_range lo hi a = in_range lo hi b"
      using assms Cons s' by (intro in_range_caseless) simp_all
    have "map upper_byte (take (sz - 2) t) = map upper_byte (take (sz - 2) t')"
      using assms(1) Cons s' by (simp add: take_map [symmetric])
    then have "list_all (in_range 128 191) (take (sz - 2) t) =
        list_all (in_range 128 191) (take (sz - 2) t')"
      by (rule list_all_caseless) simp
    then show ?thesis using h l Cons s' by (simp add: rune_seq_def)
  qed
qed

lemma rune_class_bounds: "rune_class c = Some (sz, lo, hi) \<Longrightarrow> 2 \<le> sz \<and> 128 \<le> lo"
  by (auto simp: rune_class_def split: if_splits)

lemma rune_width_caseless:
  assumes "map upper_byte s = map upper_byte s'"
  shows "rune_width c s = rune_width c s'"
proof (cases "rune_class c")
  case None
  then show ?thesis by (simp add: rune_width_def)
next
  case (Some t)
  obtain sz lo hi where t: "t = (sz, lo, hi)" by (cases t) auto
  then have "128 \<le> lo" using Some rune_class_bounds by blast
  then have "rune_seq sz lo hi s = rune_seq sz lo hi s'"
    using assms by (intro rune_seq_caseless)
  then show ?thesis using Some t by (simp add: rune_width_def)
qed

lemma rune_seq_cases: "rune_seq sz lo hi s = 1 \<or> rune_seq sz lo hi s = sz"
  by (simp add: rune_seq_def)

lemma rune_seq_take:
  assumes "rune_seq sz lo hi s \<noteq> 1" "128 \<le> lo" "2 \<le> sz"
  shows "list_all (\<lambda>c. \<not> is_ascii c) (take (rune_seq sz lo hi s - 1) s)"
proof -
  have w: "rune_seq sz lo hi s = sz" using assms(1) rune_seq_cases by blast
  have a: "sz - 1 \<le> length s" "in_range lo hi (hd s)"
    "list_all (in_range 128 191) (take (sz - 2) (tl s))"
    using assms(1) by (auto simp: rune_seq_def split: if_splits)
  then obtain a t where s: "s = a # t" using assms(3) by (cases s) auto
  obtain m where m: "sz = Suc (Suc m)"
    using assms(3) by (cases sz; cases "sz - 1") auto
  have "take (sz - 1) s = a # take (sz - 2) t"
    using s m by simp
  moreover have "\<not> is_ascii a" using a(2) s assms(2) in_range_not_ascii by auto
  moreover have "list_all (\<lambda>c. \<not> is_ascii c) (take (sz - 2) t)"
    using a(3) s in_range_not_ascii [of 128 191] by (auto simp: list_all_iff)
  ultimately show ?thesis using w by simp
qed

lemma rune_width_take:
  assumes "rune_width c s \<noteq> 1"
  shows "list_all (\<lambda>c. \<not> is_ascii c) (take (rune_width c s - 1) s)"
proof (cases "rune_class c")
  case None
  then show ?thesis using assms by (simp add: rune_width_def)
next
  case (Some t)
  obtain sz lo hi where t: "t = (sz, lo, hi)" by (cases t) auto
  then have b: "2 \<le> sz" "128 \<le> lo" using Some rune_class_bounds by blast+
  have w: "rune_width c s = rune_seq sz lo hi s" using Some t by (simp add: rune_width_def)
  then have "rune_seq sz lo hi s \<noteq> 1" using assms by simp
  then have "list_all (\<lambda>c. \<not> is_ascii c) (take (rune_seq sz lo hi s - 1) s)"
    using b by (intro rune_seq_take)
  then show ?thesis using w by simp
qed

lemma take_caseless:
  "map upper_byte s = map upper_byte s' \<Longrightarrow> list_all (\<lambda>c. \<not> is_ascii c) (take n s) \<Longrightarrow>
     take n s = take n s'"
proof (induction s arbitrary: s' n)
  case Nil
  then show ?case by simp
next
  case (Cons a s)
  obtain b t where s': "s' = b # t" using Cons.prems(1) by (cases s') auto
  show ?case
  proof (cases n)
    case 0
    then show ?thesis by simp
  next
    case (Suc m)
    have "upper_byte a = upper_byte b" "\<not> is_ascii a"
      using Cons.prems s' Suc by simp_all
    then have ab: "a = b" by (rule caseless_eq)
    have "map upper_byte s = map upper_byte t" "list_all (\<lambda>c. \<not> is_ascii c) (take m s)"
      using Cons.prems s' Suc by simp_all
    then have "take m s = take m t" by (rule Cons.IH)
    then show ?thesis using ab s' Suc by simp
  qed
qed

lemma Map_ToUpper_caseless:
  "map upper_byte s = map upper_byte s' \<Longrightarrow> Map_ToUpper lib k s = Map_ToUpper lib k s'"
proof (induction lib k s arbitrary: s' rule: Map_ToUpper.induct)
  case (1 lib k)
  then show ?case by simp
next
  case (2 lib k c s)
  obtain b t where s': "s' = b # t" using 2(2) by (cases s') auto
  have "map upper_byte s = map upper_byte t" using 2(2) s' by simp
  then have "Map_ToUpper lib k s = Map_ToUpper lib k t" by (rule 2(1))
  then show ?case using s' by simp
next
  case (3 lib c s)
  obtain b t where s': "s' = b # t" using 3(4) by (cases s') auto
  have u: "upper_byte c = upper_byte b" and m: "map upper_byte s = map upper_byte t"
    using 3(4) s' by simp_all
  have w: "rune_width c s = rune_width c t" using m by (rule rune_width_caseless)
  show ?case
  proof (cases "is_ascii c")
    case True
    then have "is_ascii b" using u caseless_ascii by blast
    moreover have "Map_ToUpper lib 0 s = Map_ToUpper lib 0 t"
      using True m by (rule 3(1))
    ultimately show ?thesis using True s' u by simp
  next
    case False
    then have nb: "\<not> is_ascii b" using u caseless_ascii by blast
    have cb: "c = b" using u False by (rule caseless_eq)
    show ?thesis
    proof (cases "rune_width c s = 1")
      case True
      have "Map_ToUpper lib 0 s = Map_ToUpper lib 0 t"
        using False True m by (rule 3(2))
      then show ?thesis using False nb s' w cb True by simp
    next
      case one: False
      have "list_all (\<lambda>c. \<not> is_ascii c) (take (rune_width c s - 1) s)"
        using one by (rule rune_width_take)
      with m have tk: "take (rune_width c s - 1) s = take (rune_width c s - 1) t"
        by (rule take_caseless)
      have "Map_ToUpper lib (rune_width c s - 1) s = Map_ToUpper lib (rune_width c s - 1) t"
        using False one m by (rule 3(3))
      then show ?thesis using False nb s' w cb one tk by simp
    qed
  qed
qed

lemma ToUpper_caseless:
  assumes "map upper_byte q = map upper_byte q'"
  shows "strings_ToUpper lib q = strings_ToUpper lib q'"
proof -
  have "list_all is_ascii (map upper_byte q) = list_all is_ascii (map upper_byte q')"
    by (simp only: assms)
  then have a: "list_all is_ascii q = list_all is_ascii q'"
    by (simp add: list_all_iff upper_byte_ascii_iff)
  have m: "Map_ToUpper lib 0 q = Map_ToUpper lib 0 q'"
    using assms by (rule Map_ToUpper_caseless)
  show ?thesis
    unfolding strings_ToUpper_def by (simp only: a m assms)
qed

lemma first_token_caseless:
  assumes "map upper_byte q = map upper_byte q'"
  shows "first_token lib q = first_token lib q'"
proof -
  have "strings_ToUpper lib q = strings_ToUpper lib q'"
    using assms by (rule ToUpper_caseless)
  then show ?thesis by (simp only: first_token_def)
qed

lemma all_node_loop_nonempty:
  "qs \<noteq> [] \<Longrightarrow> all_node_loop wr qs query auth resp_err = Some (wr (last qs) [] query auth)"
  by (induction qs arbitrary: resp_err) auto

lemma all_node_calls:
  "map fst (calls (all_node_request lib wr h w r)) = [0 ..< length (queries h)]"
proof (cases "queries h = []")
  case True
  then show ?thesis by (simp add: all_node_request_def)
next
  case False
  then show ?thesis
    by (simp add: all_node_request_def all_node_loop_nonempty comp_def map_idI
        split: sum.splits)
qed

lemma single_node_calls:
  "queries h \<noteq> [] \<Longrightarrow>
     map fst (calls (single_node_request lib wr draw h w r)) = [draw mod length (queries h)]"
  by (simp add: single_node_request_def rand_Intn_def split: sum.splits)

lemma all_node_loop_last:
  "all_node_loop wr (qs @ [q]) query auth resp_err = Some (wr q [] query auth)"
  by (induction qs arbitrary: resp_err) simp_all

lemma status_jsonError: "status w = None \<Longrightarrow> status (jsonError lib w code msg) = Some code"
  by (simp add: jsonError_def Write_def WriteHeader_def Header_Set_def)

lemma write_points_concat:
  "write_points m precision outBuf points =
     outBuf @ concat (map (\<lambda>pt. PrecisionString m pt precision @ [CHR 0x0A]) points)"
  by (induction points arbitrary: outBuf) simp_all

lemma length_getBuf: "length getBuf = 2048"
  by (simp add: getBuf_def KB_def)

lemma skip_getBuf: "dropWhile (\<lambda>c. c = CHR 0x00) (getBuf @ s) = dropWhile (\<lambda>c. c = CHR 0x00) s"
  by (simp add: getBuf_def dropWhile_append)

lemma example_parse:
  "ParsePointsWithPrecision example_models (getBuf @ ''cpu value=1 1700000000'') start precision
     = Inr [''cpu value=1 1700000000'']"
  by (simp add: example_models_def skip_getBuf)

lemma list_all2_right:
  "list_all2 P xs ys \<Longrightarrow> (\<And>x y. P x y \<Longrightarrow> Q y) \<Longrightarrow> list_all Q ys"
  by (induction rule: list_all2_induct) auto

lemma list_all2_map_eq:
  "list_all2 (\<lambda>x y. g y = f x) xs ys \<Longrightarrow> map g ys = map f xs"
  by (induction rule: list_all2_induct) auto

lemma build_all_each:
  "build_all mk cfgs = Inr bs \<Longrightarrow> list_all2 (\<lambda>cfg b. mk cfg = Inr b) cfgs bs"
  by (induction cfgs arbitrary: bs) (auto split: sum.splits)

lemma query_backend_skips:
  "newHttpQueryBackend lib cfg = Inr b \<Longrightarrow>
     \<exists>sp. poster b = Simple sp \<and> client_InsecureSkipVerify sp"
  by (auto simp: newHttpQueryBackend_def newSimplePoster_def split: sum.splits)

lemma write_backend_honors:
  "newHTTPBackend lib cfg = Inr b \<Longrightarrow>
     client_InsecureSkipVerify (wrapped_poster (poster b)) = SkipTLSVerification cfg"
  by (auto simp: newHTTPBackend_def newSimplePoster_def newRetryBuffer_def
      split: sum.splits if_splits)

lemma example_built: "NewHTTP example_lib example_config = Inr example_relay"
  by (simp add: NewHTTP_def example_config_def example_relay_def example_lib_def
      newHTTPBackend_def newHttpQueryBackend_def parse_timeout_def
      DefaultHTTPTimeout_def DefaultMaxDelayInterval_def DefaultBatchSizeKB_def
      go_int_def MB_def KB_def)

lemma fold_Header_Set:
  "header (fold (\<lambda>kv. Header_Set lib (fst kv) (snd kv)) hs w) =
     header w ++ map_of (rev (map (\<lambda>kv. (CanonicalHeaderKey lib (fst kv), snd kv)) hs))
   \<and> status (fold (\<lambda>kv. Header_Set lib (fst kv) (snd kv)) hs w) = status w
   \<and> written (fold (\<lambda>kv. Header_Set lib (fst kv) (snd kv)) hs w) = written w"
proof (induction hs arbitrary: w)
  case Nil
  then show ?case by simp
next
  case (Cons kv hs)
  let ?f = "\<lambda>kv. Header_Set lib (fst kv) (snd kv)"
  let ?g = "\<lambda>kv. (CanonicalHeaderKey lib (fst kv), snd kv)"
  let ?k = "CanonicalHeaderKey lib (fst kv)"
  let ?n = "map_of (rev (map ?g hs))"
  let ?w = "Header_Set lib (fst kv) (snd kv) w"
  have hw: "header ?w = header w ++ [?k \<mapsto> snd kv]" "status ?w = status w"
    "written ?w = written w"
    by (simp_all add: Header_Set_def)
  have st: "fold ?f (kv # hs) w = fold ?f hs ?w"
    by simp
  have "map_of (rev (map ?g (kv # hs))) = [?k \<mapsto> snd kv] ++ ?n"
    by (simp add: map_of_append)
  then have "header w ++ map_of (rev (map ?g (kv # hs))) = (header w ++ [?k \<mapsto> snd kv]) ++ ?n"
    by (simp only: map_add_assoc)
  also have "\<dots> = header ?w ++ ?n"
    by (simp only: hw)
  also have "\<dots> = header (fold ?f hs ?w)"
    using Cons.IH [of ?w] by simp
  finally have "header (fold ?f (kv # hs) w) = header w ++ map_of (rev (map ?g (kv # hs)))"
    by (simp only: st)
  moreover have "status (fold ?f (kv # hs) w) = status w"
    using Cons.IH [of ?w] hw by (simp only: st)
  moreover have "written (fold ?f (kv # hs) w) = written w"
    using Cons.IH [of ?w] hw by (simp only: st)
  ultimately show ?case by blast
qed

lemma first_token_select:
  "first_token example_lib ''SELECT * FROM cpu'' = ''SELECT''"
  by (simp add: first_token_def strings_ToUpper_def is_ascii_def upper_byte_def
      lower_letters_def upper_letters_def strings_Trim_def trimLeft_def trimRight_def
      whitespace_def)

subsection \<open>The claims about the HTTP relay\<close>

text \<open>
  C1. Every write backend should be handed exactly the re-serialized points, each followed
  by one newline, and nothing else. The code does not do that: \<open>getBuf\<close> makes its buffer
  from a slice of length 2048 (not of capacity 2048), so the payload starts with 2048 zero
  bytes. In the specification's first scenario both backends are posted the zero bytes
  followed by the line; in general, whenever the body is read and parsed, every backend's
  payload is \<open>getBuf\<close> followed by the points.
\<close>

theorem write_payload:
  "calls (serveWrite example_lib example_models example_relay new_writer write_request 0) =
     [(0, getBuf @ ''cpu value=1 1700000000'' @ [CHR 0x0A], ''db=x&precision=s'', []),
      (1, getBuf @ ''cpu value=1 1700000000'' @ [CHR 0x0A], ''db=x&precision=s'', [])]
   \<and> length getBuf = 2048
   \<and> getBuf @ ''cpu value=1 1700000000'' @ [CHR 0x0A] \<noteq> ''cpu value=1 1700000000'' @ [CHR 0x0A]
   \<and> map (\<lambda>c. fst (snd c)) (calls (serveWrite_body lib m h w r start queryParams body)) =
       (case ReadFrom getBuf body of
          Inl err \<Rightarrow> []
        | Inr bodyBuf \<Rightarrow>
            (case ParsePointsWithPrecision m bodyBuf start (Values_Get queryParams ''precision'') of
               Inl err \<Rightarrow> []
             | Inr points \<Rightarrow>
                 replicate (length (backends h))
                   (getBuf @
                      concat (map (\<lambda>pt. PrecisionString m pt
                                           (Values_Get queryParams ''precision'') @ [CHR 0x0A])
                                points))))"
proof (intro conjI)
  show "calls (serveWrite example_lib example_models example_relay new_writer write_request 0) =
     [(0, getBuf @ ''cpu value=1 1700000000'' @ [CHR 0x0A], ''db=x&precision=s'', []),
      (1, getBuf @ ''cpu value=1 1700000000'' @ [CHR 0x0A], ''db=x&precision=s'', [])]"
    by (simp add: serveWrite_def serveWrite_body_def write_request_def Values_Get_def
        ReadFrom_def example_parse write_points_concat example_relay_def example_lib_def
        encode_keys_def upt_conv_Cons)
       (simp add: example_models_def)
  show "length getBuf = 2048" by (rule length_getBuf)
  have "length (getBuf @ ''cpu value=1 1700000000'' @ [CHR 0x0A])
      \<noteq> length (''cpu value=1 1700000000'' @ [CHR 0x0A])"
    by (simp add: length_getBuf)
  then show "getBuf @ ''cpu value=1 1700000000'' @ [CHR 0x0A] \<noteq> ''cpu value=1 1700000000'' @ [CHR 0x0A]"
    by (metis)
  show "map (\<lambda>c. fst (snd c)) (calls (serveWrite_body lib m h w r start queryParams body)) =
       (case ReadFrom getBuf body of
          Inl err \<Rightarrow> []
        | Inr bodyBuf \<Rightarrow>
            (case ParsePointsWithPrecision m bodyBuf start (Values_Get queryParams ''precision'') of
               Inl err \<Rightarrow> []
             | Inr points \<Rightarrow>
                 replicate (length (backends h))
                   (getBuf @
                      concat (map (\<lambda>pt. PrecisionString m pt
                                           (Values_Get queryParams ''precision'') @ [CHR 0x0A])
                                points))))"
    by (simp add: serveWrite_body_def write_points_concat comp_def map_replicate_const
        split: sum.splits)
qed

text \<open>
  C5. In all-node routing the client should get the body of the last backend whose post
  succeeded, and 500 only when every post fails. The code keeps the result of the last
  post alone (the loop overwrites \<open>resp\<close> and \<open>err\<close>; its comment says the partial
  success is still to be fixed): with a first backend that answers and a second one that
  refuses the connection, the client gets status 500 and no body, although the first post
  succeeded. In general the response is decided by the last backend of the list.
\<close>

theorem all_node_last_only:
  "status (writer (serveQuery example_lib example_wire 0 example_relay new_writer
                     (query_request ''DROP DATABASE x''))) = Some 500
   \<and> written (writer (serveQuery example_lib example_wire 0 example_relay new_writer
                     (query_request ''DROP DATABASE x''))) = []
   \<and> map fst (calls (serveQuery example_lib example_wire 0 example_relay new_writer
                     (query_request ''DROP DATABASE x''))) = [0, 1]
   \<and> example_wire (queries example_relay ! 0) [] query auth =
       Inr \<lparr> Headers = [(''content-type'', ''application/json'')], StatusCode = 503,
             Body = ''answer of db1'' \<rparr>
   \<and> writer (all_node_request lib wr (h\<lparr> queries := qs @ [q] \<rparr>) w r) =
       (case wr q [] (Values_Encode lib (URL_Query r)) (Header_Get r ''Authorization'') of
          Inl err \<Rightarrow> WriteHeader 500 w
        | Inr resp \<Rightarrow> Write (Body resp) w)"
proof (intro conjI)
  have d: "serveQuery example_lib example_wire 0 example_relay new_writer
             (query_request ''DROP DATABASE x'') =
           all_node_request example_lib example_wire example_relay new_writer
             (query_request ''DROP DATABASE x'')"
    by (simp add: serveQuery_def query_request_def Values_Get_def strings_ToUpper_def
        is_ascii_def upper_byte_def lower_letters_def upper_letters_def strings_Trim_def
        trimLeft_def trimRight_def)
  have a: "all_node_request example_lib example_wire example_relay new_writer
             (query_request ''DROP DATABASE x'') =
           \<lparr> writer = WriteHeader 500 new_writer, panics = False,
             calls = [(0, [], Values_Encode example_lib (URL_Query (query_request ''DROP DATABASE x'')), []),
                      (1, [], Values_Encode example_lib (URL_Query (query_request ''DROP DATABASE x'')), [])] \<rparr>"
    by (simp add: all_node_request_def example_relay_def example_wire_def query_request_def
        upt_conv_Cons)
  show "status (writer (serveQuery example_lib example_wire 0 example_relay new_writer
                     (query_request ''DROP DATABASE x''))) = Some 500"
    unfolding d a by (simp add: WriteHeader_def new_writer_def)
  show "written (writer (serveQuery example_lib example_wire 0 example_relay new_writer
                     (query_request ''DROP DATABASE x''))) = []"
    unfolding d a by (simp add: WriteHeader_def new_writer_def)
  show "map fst (calls (serveQuery example_lib example_wire 0 example_relay new_writer
                     (query_request ''DROP DATABASE x''))) = [0, 1]"
    unfolding d a by simp
  show "example_wire (queries example_relay ! 0) [] query auth =
       Inr \<lparr> Headers = [(''content-type'', ''application/json'')], StatusCode = 503,
             Body = ''answer of db1'' \<rparr>"
    by (simp add: example_wire_def example_relay_def)
  show "writer (all_node_request lib wr (h\<lparr> queries := qs @ [q] \<rparr>) w r) =
       (case wr q [] (Values_Encode lib (URL_Query r)) (Header_Get r ''Authorization'') of
          Inl err \<Rightarrow> WriteHeader 500 w
        | Inr resp \<Rightarrow> Write (Body resp) w)"
    by (simp add: all_node_request_def all_node_loop_last split: sum.splits)
qed

text \<open>
  C6, as the claim states it, fails: a relay may be configured with no query backend
  (\<open>NewHTTP\<close> builds it), and there a \<open>SELECT\<close> is routed to no backend at all:
  \<open>rand.Intn(0)\<close> panics, nothing is posted and nothing is written to the client.
\<close>

theorem no_query_backend_counterexample:
  "NewHTTP example_lib (example_config\<lparr> Queries := [] \<rparr>) =
     Inr (example_relay\<lparr> queries := [] \<rparr>)
   \<and> panics (serveQuery example_lib example_wire 0 (example_relay\<lparr> queries := [] \<rparr>)
               new_writer (query_request ''SELECT * FROM cpu''))
   \<and> calls (serveQuery example_lib example_wire 0 (example_relay\<lparr> queries := [] \<rparr>)
              new_writer (query_request ''SELECT * FROM cpu'')) = []
   \<and> writer (serveQuery example_lib example_wire 0 (example_relay\<lparr> queries := [] \<rparr>)
               new_writer (query_request ''SELECT * FROM cpu'')) = new_writer"
proof (intro conjI)
  show "NewHTTP example_lib (example_config\<lparr> Queries := [] \<rparr>) =
     Inr (example_relay\<lparr> queries := [] \<rparr>)"
    by (simp add: NewHTTP_def example_config_def example_relay_def example_lib_def
        newHTTPBackend_def parse_timeout_def DefaultHTTPTimeout_def
        DefaultMaxDelayInterval_def DefaultBatchSizeKB_def go_int_def MB_def KB_def)
  have d: "serveQuery example_lib example_wire 0 (example_relay\<lparr> queries := [] \<rparr>)
             new_writer (query_request ''SELECT * FROM cpu'') =
           single_node_request example_lib example_wire 0 (example_relay\<lparr> queries := [] \<rparr>)
             new_writer (query_request ''SELECT * FROM cpu'')"
    unfolding serveQuery_dispatch
    by (simp add: query_request_def Values_Get_def first_token_select routing_of_def)
  show "panics (serveQuery example_lib example_wire 0 (example_relay\<lparr> queries := [] \<rparr>)
               new_writer (query_request ''SELECT * FROM cpu''))"
    unfolding d by (simp add: single_node_request_def rand_Intn_def)
  show "calls (serveQuery example_lib example_wire 0 (example_relay\<lparr> queries := [] \<rparr>)
              new_writer (query_request ''SELECT * FROM cpu'')) = []"
    unfolding d by (simp add: single_node_request_def rand_Intn_def)
  show "writer (serveQuery example_lib example_wire 0 (example_relay\<lparr> queries := [] \<rparr>)
               new_writer (query_request ''SELECT * FROM cpu'')) = new_writer"
    unfolding d by (simp add: single_node_request_def rand_Intn_def)
qed

text \<open>
  C6, amended. The query handler routes by the first space-separated token of the
  upper-cased, whitespace-trimmed \<open>q\<close> parameter: \<open>SELECT\<close> and \<open>SHOW\<close> go to
  \<open>single_node_request\<close>, which, in a relay with at least one query backend, posts to
  exactly one backend, the one the random draw picks, and with no query backend panics
  and posts nothing; \<open>DELETE\<close>, \<open>DROP\<close>, \<open>GRANT\<close>, \<open>REVOKE\<close>, \<open>ALTER\<close>, \<open>SET\<close>
  and \<open>CREATE\<close> go to \<open>all_node_request\<close>, which posts to every backend in order; every
  other token, \<open>KILL\<close> and the empty token of an empty or all-whitespace \<open>q\<close> among
  them, gets the 400 JSON error and no post. Two values of \<open>q\<close> that differ in nothing
  but the case of the letters \<open>a\<close> to \<open>z\<close> have the same first token, so they are
  routed alike.
\<close>

theorem query_routing:
  "serveQuery lib wr draw h w r =
     (case routing_of (first_token lib (Values_Get (URL_Query r) ''q'')) of
        SingleNode \<Rightarrow> single_node_request lib wr draw h w r
      | AllNode \<Rightarrow> all_node_request lib wr h w r
      | Rejected \<Rightarrow> error_request lib w (first_token lib (Values_Get (URL_Query r) ''q'')))
   \<and> routing_of token =
       (if token = ''SELECT'' \<or> token = ''SHOW'' then SingleNode
        else if token = ''DELETE'' \<or> token = ''DROP'' \<or> token = ''GRANT'' \<or>
                token = ''REVOKE'' \<or> token = ''ALTER'' \<or> token = ''SET'' \<or>
                token = ''CREATE'' then AllNode
        else Rejected)
   \<and> (queries h \<noteq> [] \<longrightarrow>
        map fst (calls (single_node_request lib wr draw h w r)) = [draw mod length (queries h)]
        \<and> draw mod length (queries h) < length (queries h))
   \<and> map fst (calls (all_node_request lib wr h w r)) = [0 ..< length (queries h)]
   \<and> (status w = None \<longrightarrow> status (writer (error_request lib w token)) = Some 400)
   \<and> calls (error_request lib w token) = []
   \<and> routing_of ''KILL'' = Rejected
   \<and> routing_of [] = Rejected
   \<and> (list_all (\<lambda>c. c \<in> set whitespace) q \<longrightarrow> first_token lib q = [])
   \<and> (map upper_byte q = map upper_byte q' \<longrightarrow> first_token lib q = first_token lib q')
   \<and> written (writer (error_request lib w token)) =
       written w @ ''{'' @ [CHR 0x22] @ ''error'' @ [CHR 0x22] @ '':'' @
         fmt_q lib (''relay is not support `'' @ token @ ''` expr!'') @ ''}'' @ [CHR 0x0A]
   \<and> (queries h = [] \<longrightarrow>
        panics (single_node_request lib wr draw h w r)
        \<and> calls (single_node_request lib wr draw h w r) = []
        \<and> writer (single_node_request lib wr draw h w r) = w)"
proof (intro conjI impI)
  show "serveQuery lib wr draw h w r =
     (case routing_of (first_token lib (Values_Get (URL_Query r) ''q'')) of
        SingleNode \<Rightarrow> single_node_request lib wr draw h w r
      | AllNode \<Rightarrow> all_node_request lib wr h w r
      | Rejected \<Rightarrow> error_request lib w (first_token lib (Values_Get (URL_Query r) ''q'')))"
    by (rule serveQuery_dispatch)
  show "routing_of token =
       (if token = ''SELECT'' \<or> token = ''SHOW'' then SingleNode
        else if token = ''DELETE'' \<or> token = ''DROP'' \<or> token = ''GRANT'' \<or>
                token = ''REVOKE'' \<or> token = ''ALTER'' \<or> token = ''SET'' \<or>
                token = ''CREATE'' then AllNode
        else Rejected)"
    by (simp add: routing_of_def)
  show "map fst (calls (all_node_request lib wr h w r)) = [0 ..< length (queries h)]"
    by (rule all_node_calls)
  show "calls (error_request lib w token) = []"
    by (simp add: error_request_def)
  show "written (writer (error_request lib w token)) =
       written w @ ''{'' @ [CHR 0x22] @ ''error'' @ [CHR 0x22] @ '':'' @
         fmt_q lib (''relay is not support `'' @ token @ ''` expr!'') @ ''}'' @ [CHR 0x0A]"
    by (simp add: error_request_def jsonError_def Write_def WriteHeader_def Header_Set_def)
  show "routing_of ''KILL'' = Rejected" by (simp add: routing_of_def)
  show "routing_of [] = Rejected" by (simp add: routing_of_def)
next
  assume "queries h \<noteq> []"
  then show "map fst (calls (single_node_request lib wr draw h w r)) =
      [draw mod length (queries h)]"
    by (rule single_node_calls)
next
  assume "queries h \<noteq> []"
  then show "draw mod length (queries h) < length (queries h)" by simp
next
  assume "status w = None"
  then show "status (writer (error_request lib w token)) = Some 400"
    by (simp add: error_request_def status_jsonError)
next
  assume "list_all (\<lambda>c. c \<in> set whitespace) q"
  then show "first_token lib q = []" by (rule blank_token)
next
  assume "map upper_byte q = map upper_byte q'"
  then show "first_token lib q = first_token lib q'"
    by (rule first_token_caseless)
next
  assume "queries h = []"
  then show "panics (single_node_request lib wr draw h w r)"
    by (simp add: single_node_request_def rand_Intn_def)
next
  assume "queries h = []"
  then show "calls (single_node_request lib wr draw h w r) = []"
    by (simp add: single_node_request_def rand_Intn_def)
next
  assume "queries h = []"
  then show "writer (single_node_request lib wr draw h w r) = w"
    by (simp add: single_node_request_def rand_Intn_def)
qed

theorem query_routing_witness:
  "map fst (calls (serveQuery example_lib example_wire 3 example_relay new_writer
                     (query_request ''select * from cpu''))) = [1]
   \<and> map fst (calls (serveQuery example_lib example_wire 3 example_relay new_writer
                     (query_request ''SELECT * FROM cpu''))) = [1]
   \<and> first_token example_lib '' '' = []
   \<and> status (writer (serveQuery example_lib example_wire 3 example_relay new_writer
                     (query_request '' ''))) = Some 400
   \<and> panics (single_node_request example_lib example_wire 3
               (example_relay\<lparr> queries := [] \<rparr>) new_writer (query_request ''show databases''))"
proof -
  note dispatch = query_routing [THEN conjunct1]
  note none_to_pick = query_routing [THEN conjunct2, THEN conjunct2, THEN conjunct2,
      THEN conjunct2, THEN conjunct2, THEN conjunct2, THEN conjunct2, THEN conjunct2,
      THEN conjunct2, THEN conjunct2, THEN conjunct2, rule_format, THEN conjunct1]
  note single = query_routing [THEN conjunct2, THEN conjunct2, THEN conjunct1, rule_format]
  note reject = query_routing [THEN conjunct2, THEN conjunct2, THEN conjunct2, THEN conjunct2,
      THEN conjunct1, rule_format]
  note blank = query_routing [THEN conjunct2, THEN conjunct2, THEN conjunct2, THEN conjunct2,
      THEN conjunct2, THEN conjunct2, THEN conjunct2, THEN conjunct2, THEN conjunct1,
      rule_format]
  note cases = query_routing [THEN conjunct2, THEN conjunct2, THEN conjunct2, THEN conjunct2,
      THEN conjunct2, THEN conjunct2, THEN conjunct2, THEN conjunct2, THEN conjunct2,
      THEN conjunct1, rule_format]
  have "map upper_byte ''select * from cpu'' = map upper_byte ''SELECT * FROM cpu''"
    by (simp add: upper_byte_def lower_letters_def upper_letters_def)
  then have same: "first_token example_lib ''select * from cpu'' =
      first_token example_lib ''SELECT * FROM cpu''"
    by (rule cases)
  have two: "length (queries example_relay) = 2" by (simp add: example_relay_def)
  then have "queries example_relay \<noteq> []" by auto
  then have one: "map fst (calls (single_node_request example_lib example_wire 3 example_relay
      new_writer r)) = [1]" for r
    using single [of example_relay example_lib example_wire 3 new_writer r] two by simp
  have lower: "serveQuery example_lib example_wire 3 example_relay new_writer
      (query_request ''select * from cpu'') =
      single_node_request example_lib example_wire 3 example_relay new_writer
        (query_request ''select * from cpu'')"
    unfolding dispatch
    by (simp add: query_request_def Values_Get_def same first_token_select routing_of_def)
  have upper: "serveQuery example_lib example_wire 3 example_relay new_writer
      (query_request ''SELECT * FROM cpu'') =
      single_node_request example_lib example_wire 3 example_relay new_writer
        (query_request ''SELECT * FROM cpu'')"
    unfolding dispatch
    by (simp add: query_request_def Values_Get_def first_token_select routing_of_def)
  have "list_all (\<lambda>c. c \<in> set whitespace) '' ''" by (simp add: whitespace_def)
  then have none: "first_token example_lib '' '' = []" by (rule blank)
  have rejected: "serveQuery example_lib example_wire 3 example_relay new_writer
      (query_request '' '') = error_request example_lib new_writer []"
    unfolding dispatch
    by (simp add: query_request_def Values_Get_def none routing_of_def)
  have "status new_writer = None" by (simp add: new_writer_def)
  then have "status (writer (error_request example_lib new_writer [])) = Some 400"
    by (rule reject)
  moreover have "queries (example_relay\<lparr> queries := [] \<rparr>) = []" by simp
  then have "panics (single_node_request example_lib example_wire 3
      (example_relay\<lparr> queries := [] \<rparr>) new_writer (query_request ''show databases''))"
    by (rule none_to_pick)
  ultimately show ?thesis unfolding lower upper rejected using one none by simp
qed

text \<open>
  C7, as the claim states it, fails: a gzip body whose trailer is cut short passes
  \<open>gzip.NewReader\<close> and fails while it is read, and the handler answers 500, not 400.
\<close>

theorem truncated_gzip_counterexample:
  "gzip_NewReader example_lib (ReqBody gzip_request) = Inr (Inl ''unexpected EOF'')
   \<and> status (writer (serveWrite example_lib example_models example_relay new_writer
                       gzip_request 0)) = Some 500"
  by (simp add: serveWrite_def serveWrite_body_def gzip_request_def write_request_def
      Values_Get_def ReadFrom_def example_lib_def jsonError_def Write_def WriteHeader_def
      Header_Set_def new_writer_def)

text \<open>
  C7, amended. For every POST to \<open>/write\<close> with a \<open>db\<close> parameter and
  \<open>Content-Encoding: gzip\<close> whose body passes \<open>gzip.NewReader\<close> and then fails while it
  is read (a truncated trailer, for example), the handler responds with status 500 and
  the JSON error \<open>problem reading request body\<close>, and posts to no backend.
\<close>

theorem gzip_read_failure:
  assumes "Method r = ''POST''" "Values_Get (URL_Query r) ''db'' \<noteq> []"
    "Header_Get r ''Content-Encoding'' = ''gzip''"
    "gzip_NewReader lib (ReqBody r) = Inr (Inl err)" "status w = None"
  shows "status (writer (serveWrite lib m h w r start)) = Some 500
       \<and> \<not> panics (serveWrite lib m h w r start)
       \<and> calls (serveWrite lib m h w r start) = []
       \<and> written (writer (serveWrite lib m h w r start)) =
           written w @ ''{'' @ [CHR 0x22] @ ''error'' @ [CHR 0x22] @ '':'' @
             fmt_q lib ''problem reading request body'' @ ''}'' @ [CHR 0x0A]"
proof -
  have s: "serveWrite lib m h w r start =
      \<lparr> writer = jsonError lib w 500 ''problem reading request body'',
        panics = False, calls = [] \<rparr>"
    using assms by (simp add: serveWrite_def serveWrite_body_def ReadFrom_def)
  have "written (jsonError lib w 500 ''problem reading request body'') =
      written w @ ''{'' @ [CHR 0x22] @ ''error'' @ [CHR 0x22] @ '':'' @
        fmt_q lib ''problem reading request body'' @ ''}'' @ [CHR 0x0A]"
    by (simp add: jsonError_def Write_def WriteHeader_def Header_Set_def)
  then show ?thesis using assms(5) by (simp add: s status_jsonError)
qed

theorem gzip_read_failure_witness:
  "status (writer (serveWrite example_lib example_models example_relay new_writer
                     gzip_request 0)) = Some 500
   \<and> \<not> panics (serveWrite example_lib example_models example_relay new_writer gzip_request 0)
   \<and> calls (serveWrite example_lib example_models example_relay new_writer gzip_request 0) = []"
proof -
  have "status new_writer = None" by (simp add: new_writer_def)
  moreover have "Method gzip_request = ''POST''"
    by (simp add: gzip_request_def write_request_def)
  moreover have "Values_Get (URL_Query gzip_request) ''db'' \<noteq> []"
    by (simp add: gzip_request_def write_request_def Values_Get_def)
  moreover have "Header_Get gzip_request ''Content-Encoding'' = ''gzip''"
    by (simp add: gzip_request_def write_request_def)
  moreover have "gzip_NewReader example_lib (ReqBody gzip_request) = Inr (Inl ''unexpected EOF'')"
    by (simp add: gzip_request_def write_request_def example_lib_def)
  ultimately show ?thesis
    using gzip_read_failure
      [where r = gzip_request and lib = example_lib and w = new_writer
         and err = "''unexpected EOF''" and m = example_models and h = example_relay
         and start = 0]
    by blast
qed

text \<open>
  C9. \<open>newHttpQueryBackend\<close> gives every query backend a simple poster that skips the TLS
  verification, whatever the configuration says; the poster of a write backend (the one
  inside the retry buffer, when there is one) has the \<open>SkipTLSVerification\<close> of its
  configuration. Both hold for every backend of a relay that \<open>NewHTTP\<close> builds.
\<close>

theorem skip_tls_verification:
  "(newHttpQueryBackend lib qcfg = Inr b \<longrightarrow>
      (\<exists>sp. poster b = Simple sp \<and> client_InsecureSkipVerify sp))
   \<and> (newHTTPBackend lib ocfg = Inr b' \<longrightarrow>
        client_InsecureSkipVerify (wrapped_poster (poster b')) = SkipTLSVerification ocfg)
   \<and> (NewHTTP lib cfg = Inr h \<longrightarrow>
        list_all (\<lambda>b. \<exists>sp. poster b = Simple sp \<and> client_InsecureSkipVerify sp) (queries h)
        \<and> map (\<lambda>b. client_InsecureSkipVerify (wrapped_poster (poster b))) (backends h) =
            map SkipTLSVerification (Outputs cfg))"
proof (intro conjI impI)
  assume "newHttpQueryBackend lib qcfg = Inr b"
  then show "\<exists>sp. poster b = Simple sp \<and> client_InsecureSkipVerify sp"
    by (rule query_backend_skips)
next
  assume "newHTTPBackend lib ocfg = Inr b'"
  then show "client_InsecureSkipVerify (wrapped_poster (poster b')) = SkipTLSVerification ocfg"
    by (rule write_backend_honors)
next
  assume n: "NewHTTP lib cfg = Inr h"
  then obtain bs qs where
    bs: "build_all (newHTTPBackend lib) (Outputs cfg) = Inr bs" and
    qs: "build_all (newHttpQueryBackend lib) (Queries cfg) = Inr qs" and
    h: "backends h = bs" "queries h = qs"
    by (auto simp: NewHTTP_def split: sum.splits)
  have "list_all2 (\<lambda>c b. newHttpQueryBackend lib c = Inr b) (Queries cfg) qs"
    using qs by (rule build_all_each)
  then show "list_all (\<lambda>b. \<exists>sp. poster b = Simple sp \<and> client_InsecureSkipVerify sp) (queries h)"
    unfolding h by (rule list_all2_right) (rule query_backend_skips)
  have "list_all2 (\<lambda>c b. newHTTPBackend lib c = Inr b) (Outputs cfg) bs"
    using bs by (rule build_all_each)
  then have "list_all2
      (\<lambda>c b. client_InsecureSkipVerify (wrapped_poster (poster b)) = SkipTLSVerification c)
      (Outputs cfg) bs"
    by (rule list_all2_mono) (rule write_backend_honors)
  then show "map (\<lambda>b. client_InsecureSkipVerify (wrapped_poster (poster b))) (backends h) =
            map SkipTLSVerification (Outputs cfg)"
    unfolding h by (rule list_all2_map_eq)
qed

theorem skip_tls_verification_witness:
  "NewHTTP example_lib example_config = Inr example_relay
   \<and> map SkipTLSVerification (Outputs example_config) = [False, True]
   \<and> map (\<lambda>b. client_InsecureSkipVerify (wrapped_poster (poster b))) (backends example_relay) =
       [False, True]
   \<and> list_all (\<lambda>b. \<exists>sp. poster b = Simple sp \<and> client_InsecureSkipVerify sp)
       (queries example_relay)"
proof -
  have o: "map SkipTLSVerification (Outputs example_config) = [False, True]"
    by (simp add: example_config_def)
  from skip_tls_verification [where lib = example_lib and cfg = example_config
      and h = example_relay] example_built
  have "list_all (\<lambda>b. \<exists>sp. poster b = Simple sp \<and> client_InsecureSkipVerify sp)
          (queries example_relay)
        \<and> map (\<lambda>b. client_InsecureSkipVerify (wrapped_poster (poster b))) (backends example_relay) =
            map SkipTLSVerification (Outputs example_config)"
    by blast
  then show ?thesis using o example_built by simp
qed

text \<open>
  C10. On a single-node query whose post succeeds, a fresh response writer ends with the
  status 200, whatever status code the backend answered, with the backend's body, and
  with the backend's headers set under their canonical names.
\<close>

theorem single_node_status:
  assumes "routing_of (first_token lib (Values_Get (URL_Query r) ''q'')) = SingleNode"
    and "queries h \<noteq> []"
    and "wr (queries h ! (draw mod length (queries h))) [] (Values_Encode lib (URL_Query r))
           (Header_Get r ''Authorization'') = Inr resp"
    and "status w = None"
  shows "status (writer (serveQuery lib wr draw h w r)) = Some 200
       \<and> written (writer (serveQuery lib wr draw h w r)) = written w @ Body resp
       \<and> header (writer (serveQuery lib wr draw h w r)) =
           header w ++
             map_of (rev (map (\<lambda>kv. (CanonicalHeaderKey lib (fst kv), snd kv)) (Headers resp)))
       \<and> \<not> panics (serveQuery lib wr draw h w r)"
  using assms
  by (simp add: serveQuery_dispatch single_node_request_def rand_Intn_def Write_def
      WriteHeader_def fold_Header_Set)

theorem single_node_status_witness:
  "status (writer (serveQuery example_lib example_wire 0 example_relay new_writer
                     (query_request ''select * from cpu''))) = Some 200
   \<and> written (writer (serveQuery example_lib example_wire 0 example_relay new_writer
                     (query_request ''select * from cpu''))) = ''answer of db1''
   \<and> header (writer (serveQuery example_lib example_wire 0 example_relay new_writer
                     (query_request ''select * from cpu''))) ''Content-Type'' =
       Some ''application/json''
   \<and> example_wire (queries example_relay ! 0) [] [] [] =
       Inr \<lparr> Headers = [(''content-type'', ''application/json'')], StatusCode = 503,
             Body = ''answer of db1'' \<rparr>"
proof -
  let ?r = "query_request ''select * from cpu''"
  let ?resp = "\<lparr> Headers = [(''content-type'', ''application/json'')], StatusCode = 503,
                  Body = ''answer of db1'' \<rparr>"
  have t: "first_token example_lib (Values_Get (URL_Query ?r) ''q'') = ''SELECT''"
    by (simp add: first_token_def query_request_def Values_Get_def strings_ToUpper_def
        is_ascii_def upper_byte_def lower_letters_def upper_letters_def strings_Trim_def
        trimLeft_def trimRight_def whitespace_def)
  have 1: "routing_of (first_token example_lib (Values_Get (URL_Query ?r) ''q'')) = SingleNode"
    unfolding t by (simp add: routing_of_def)
  have 2: "queries example_relay \<noteq> []" by (simp add: example_relay_def)
  have 3: "example_wire (queries example_relay ! (0 mod length (queries example_relay))) []
             (Values_Encode example_lib (URL_Query ?r)) (Header_Get ?r ''Authorization'') = Inr ?resp"
    by (simp add: example_wire_def example_relay_def)
  have 4: "status new_writer = None" by (simp add: new_writer_def)
  have c: "CanonicalHeaderKey example_lib ''content-type'' = ''Content-Type''"
    by (simp add: example_lib_def upper_byte_def lower_byte_def lower_letters_def
        upper_letters_def)
  from single_node_status
    [where lib = example_lib and wr = example_wire and h = example_relay and draw = 0
       and r = "?r" and w = new_writer and resp = "?resp", OF 1 2 3 4] c 3
  show ?thesis
    by (simp add: new_writer_def example_wire_def example_relay_def)
qed

end
